theory Spec2Isabelle
  imports Main "HOL-Library.Code_Target_Numeral"
begin

section \<open>JavaScript values used by the analytics endpoint\<close>

text \<open>
  A JavaScript string is written as a HOL string, a character standing for the code unit
  of the same number, from 0 to 255; strings with a code unit above 255 are outside.
\<close>

text \<open>
  A JavaScript number, as far as \<^verbatim>\<open>historical.api.ts\<close> meets one: the endpoint only
  adds results of \<^verbatim>\<open>parseInt\<close> to \<^verbatim>\<open>0\<close>, so a number is \<^verbatim>\<open>NaN\<close>, an infinity, or
  a double whose value is an integer, written by that integer. The two zeros are not told
  apart: a total starts from \<^verbatim>\<open>0\<close>, so it is never \<^verbatim>\<open>-0\<close>.
\<close>

datatype number = NaN | PosInfinity | NegInfinity | Num int

text \<open>The number of binary digits of a natural number.\<close>

fun bitLength :: "nat \<Rightarrow> nat" where
  "bitLength n = (if n = 0 then 0 else Suc (bitLength (n div 2)))"

declare bitLength.simps [simp del]

text \<open>
  The double nearest to an integer, ties to the even significand: integers up to
  \<^verbatim>\<open>2^53\<close> in magnitude are doubles themselves; a larger one keeps its 53 leading binary
  digits, rounded; what rounds to \<^verbatim>\<open>2^1024\<close> or more is an infinity.
\<close>

definition roundDouble :: "int \<Rightarrow> number" where
  "roundDouble n =
     (let m = nat \<bar>n\<bar> in
      if m \<le> 9007199254740992 then Num n
      else
        let e = bitLength m - 53;
            q = m div 2 ^ e;
            r = m mod 2 ^ e;
            q' = (if 2 ^ (e - 1) < r \<or> (r = 2 ^ (e - 1) \<and> odd q) then q + 1 else q);
            v = q' * 2 ^ e
        in if 2 ^ 1024 \<le> v then (if 0 < n then PosInfinity else NegInfinity)
           else if 0 < n then Num (int v) else Num (- int v))"

text \<open>\<^verbatim>\<open>x + y\<close> on these numbers.\<close>

fun plus_number :: "number \<Rightarrow> number \<Rightarrow> number" where
  "plus_number (Num a) (Num b) = roundDouble (a + b)"
| "plus_number NaN y = NaN"
| "plus_number x NaN = NaN"
| "plus_number PosInfinity NegInfinity = NaN"
| "plus_number NegInfinity PosInfinity = NaN"
| "plus_number PosInfinity y = PosInfinity"
| "plus_number NegInfinity y = NegInfinity"
| "plus_number x PosInfinity = PosInfinity"
| "plus_number x NegInfinity = NegInfinity"

definition isDigit :: "char \<Rightarrow> bool" where
  "isDigit c = (48 \<le> (of_char c :: nat) \<and> (of_char c :: nat) \<le> 57)"

definition digitValue :: "char \<Rightarrow> nat" where
  "digitValue c = (of_char c :: nat) - 48"

text \<open>
  The white space of JavaScript among the code units up to 255: tab, line feed, vertical
  tab, form feed, carriage return, space and the no-break space U+00A0.
\<close>

definition isWhiteSpace :: "char \<Rightarrow> bool" where
  "isWhiteSpace c =
     ((of_char c :: nat) = 32 \<or> (of_char c :: nat) = 160
      \<or> (9 \<le> (of_char c :: nat) \<and> (of_char c :: nat) \<le> 13))"

text \<open>The value of a string of decimal digits, most significant digit first.\<close>

definition decimal :: "string \<Rightarrow> nat" where
  "decimal ds = foldl (\<lambda>n c. 10 * n + digitValue c) 0 ds"

text \<open>
  \<^verbatim>\<open>parseInt(s, 10)\<close>: leading white space is skipped, one sign is read, then the
  longest run of decimal digits; no digit at all gives \<^verbatim>\<open>NaN\<close>. The result is the
  double nearest to the integer the digits write. (Past twenty significant digits
  ECMAScript lets an engine read the further digits as zeros; the digits are read as
  they are here.)
\<close>

definition parseInt :: "string \<Rightarrow> number" where
  "parseInt s =
     (let t = dropWhile isWhiteSpace s;
          negative = (case t of [] \<Rightarrow> False | c # r \<Rightarrow> c = CHR ''-'');
          u = (case t of [] \<Rightarrow> [] | c # r \<Rightarrow> if c = CHR ''-'' \<or> c = CHR ''+'' then r else t);
          ds = takeWhile isDigit u
      in if ds = [] then NaN
         else if negative then roundDouble (- int (decimal ds)) else roundDouble (int (decimal ds)))"

text \<open>\<^verbatim>\<open>Array.prototype.findIndex\<close>; \<open>None\<close> stands for the result \<^verbatim>\<open>-1\<close>.\<close>

fun findIndex :: "('a \<Rightarrow> bool) \<Rightarrow> 'a list \<Rightarrow> nat option" where
  "findIndex p [] = None"
| "findIndex p (x # xs) = (if p x then Some 0 else map_option Suc (findIndex p xs))"

section \<open>Dates\<close>

text \<open>
  Calendar fields: a year (astronomical numbering, as JavaScript counts it), a month (1 to
  12), a day of the month and the milliseconds elapsed since midnight. They write a local
  time, and they write an instant when read in UTC.
\<close>

record calendar =
  year :: int
  month :: nat
  day :: nat
  millis :: nat

definition isLeapYear :: "int \<Rightarrow> bool" where
  "isLeapYear y = (y mod 400 = 0 \<or> (y mod 4 = 0 \<and> y mod 100 \<noteq> 0))"

definition daysInMonth :: "int \<Rightarrow> nat \<Rightarrow> nat" where
  "daysInMonth y m =
     (if m = 2 then (if isLeapYear y then 29 else 28)
      else if m = 4 \<or> m = 6 \<or> m = 9 \<or> m = 11 then 30
      else 31)"

text \<open>A calendar day that exists, and a time of such a day.\<close>

definition validDay :: "calendar \<Rightarrow> bool" where
  "validDay d =
     (1 \<le> month d \<and> month d \<le> 12 \<and> 1 \<le> day d \<and> day d \<le> daysInMonth (year d) (month d))"

definition validTime :: "calendar \<Rightarrow> bool" where
  "validTime t = (validDay t \<and> millis t < 86400000)"

text \<open>
  The time value of a JavaScript \<^verbatim>\<open>Date\<close> is an instant, written here by its calendar
  fields in UTC; fields that are no time of an existing day stand for the Invalid Date.
\<close>

type_synonym Date = calendar

text \<open>The order of the fields: year, month, day, time of day.\<close>

definition earlier :: "calendar \<Rightarrow> calendar \<Rightarrow> bool" where
  "earlier a b =
     (year a < year b \<or> (year a = year b \<and>
       (month a < month b \<or> (month a = month b \<and>
         (day a < day b \<or> (day a = day b \<and> millis a < millis b))))))"

text \<open>
  The fields one calendar day later, at the same time of day: the day of the month moves
  on and rolls over into the next month and the next year.
\<close>

definition nextDay :: "calendar \<Rightarrow> calendar" where
  "nextDay d =
     (if day d < daysInMonth (year d) (month d) then d\<lparr>day := day d + 1\<rparr>
      else if month d < 12 then d\<lparr>month := month d + 1, day := 1\<rparr>
      else d\<lparr>year := year d + 1, month := 1, day := 1\<rparr>)"

subsection \<open>The time zone of the host\<close>

text \<open>
  JavaScript reads the local fields of an instant, and finds the instant of local fields,
  with the time zone of the host: a pair of functions, \<^verbatim>\<open>LocalTime\<close> and \<^verbatim>\<open>UTC\<close>
  in ECMAScript. Where the clocks are set forward, the local times in between do not
  exist and \<^verbatim>\<open>UTC\<close> gives an instant whose local fields are later ones. What is asked
  of a time zone here: both functions give times that exist, and the same local time of
  the next calendar day is a later instant.
\<close>

definition timeZone :: "(Date \<Rightarrow> calendar) \<times> (calendar \<Rightarrow> Date) \<Rightarrow> bool" where
  "timeZone z =
     ((\<forall>t. validTime t \<longrightarrow> validTime (fst z t) \<and> earlier t (snd z (nextDay (fst z t))))
      \<and> (\<forall>f. validTime f \<longrightarrow> validTime (snd z f)))"

typedef zone = "{z :: (Date \<Rightarrow> calendar) \<times> (calendar \<Rightarrow> Date). timeZone z}"
proof
  show "(\<lambda>t. t, \<lambda>f. f) \<in> {z :: (Date \<Rightarrow> calendar) \<times> (calendar \<Rightarrow> Date). timeZone z}"
    by (simp add: timeZone_def earlier_def nextDay_def)
qed

setup_lifting type_definition_zone

lift_definition localTime :: "zone \<Rightarrow> Date \<Rightarrow> calendar" is fst .

lift_definition utcOf :: "zone \<Rightarrow> calendar \<Rightarrow> Date" is snd .

subsection \<open>The date-fns calls of the endpoint\<close>

text \<open>
  \<^verbatim>\<open>parseNDigits(n, s)\<close> of date-fns reads between one and \<open>n\<close> leading digits.
\<close>

definition parseNDigits :: "nat \<Rightarrow> string \<Rightarrow> (nat \<times> string) option" where
  "parseNDigits n s =
     (let ds = takeWhile isDigit (take n s)
      in if ds = [] then None else Some (decimal ds, drop (length ds) s))"

text \<open>A literal character of the pattern is cut from the front of the input.\<close>

definition cutToken :: "char \<Rightarrow> string \<Rightarrow> string option" where
  "cutToken c s = (case s of [] \<Rightarrow> None | x # r \<Rightarrow> if x = c then Some r else None)"

text \<open>
  What \<^verbatim>\<open>parse\<close> reads from a string with the pattern \<^verbatim>\<open>'yyyy-MM-dd'\<close>: the year,
  the month and the day, with the time set to midnight. What follows the day may only be
  white space; the year must be positive and the day must exist in its month.
\<close>

definition parseFields :: "string \<Rightarrow> calendar option" where
  "parseFields s =
     (case parseNDigits 4 s of None \<Rightarrow> None
      | Some (y, s1) \<Rightarrow>
     (case cutToken CHR ''-'' s1 of None \<Rightarrow> None
      | Some s2 \<Rightarrow>
     (case parseNDigits 2 s2 of None \<Rightarrow> None
      | Some (m, s3) \<Rightarrow>
     (case cutToken CHR ''-'' s3 of None \<Rightarrow> None
      | Some s4 \<Rightarrow>
     (case parseNDigits 2 s4 of None \<Rightarrow> None
      | Some (d, s5) \<Rightarrow>
        if \<not> list_all isWhiteSpace s5 then None
        else if y = 0 then None
        else if m < 1 \<or> 12 < m then None
        else if d < 1 \<or> daysInMonth (int y) m < d then None
        else Some \<lparr>year = int y, month = m, day = d, millis = 0\<rparr>)))))"

text \<open>
  \<^verbatim>\<open>parse(s, 'yyyy-MM-dd', referenceDate)\<close>: the instant of local midnight of the day
  read; nothing is taken from the reference date, which is a reading of the clock.
  \<open>None\<close> is the Invalid Date, so \<^verbatim>\<open>isValid\<close> of the result is
  \<open>parse z s r \<noteq> None\<close>. (date-fns sets the local day first and the local time after;
  the instant in between is taken to be on the day read.)
\<close>

definition parse :: "zone \<Rightarrow> string \<Rightarrow> Date \<Rightarrow> Date option" where
  "parse z s referenceDate = map_option (utcOf z) (parseFields s)"

text \<open>The decimal digits of a natural number.\<close>

fun digits :: "nat \<Rightarrow> string" where
  "digits n = (if n < 10 then [char_of (48 + n)] else digits (n div 10) @ [char_of (48 + n mod 10)])"

declare digits.simps [simp del]

definition addLeadingZeros :: "nat \<Rightarrow> nat \<Rightarrow> string" where
  "addLeadingZeros n targetLength = replicate (targetLength - length (digits n)) CHR ''0'' @ digits n"

text \<open>
  The pattern \<^verbatim>\<open>'yyyy-MM-dd'\<close> on calendar fields: the year on at least four digits,
  the month and the day on two. A year \<open>y\<close> that is not positive prints as \<open>1 - y\<close>.
\<close>

definition formatFields :: "calendar \<Rightarrow> string" where
  "formatFields f =
     addLeadingZeros (nat (if 0 < year f then year f else 1 - year f)) 4
     @ ''-'' @ addLeadingZeros (month f) 2 @ ''-'' @ addLeadingZeros (day f) 2"

text \<open>\<^verbatim>\<open>format(d, 'yyyy-MM-dd')\<close> prints the local fields of the instant.\<close>

definition format :: "zone \<Rightarrow> Date \<Rightarrow> string" where
  "format z d = formatFields (localTime z d)"

text \<open>
  \<^verbatim>\<open>isBefore(a, b)\<close> compares the time values of two dates; a comparison with the
  Invalid Date is false.
\<close>

definition isBefore :: "Date \<Rightarrow> Date \<Rightarrow> bool" where
  "isBefore a b = (validTime a \<and> validTime b \<and> earlier a b)"

text \<open>
  \<^verbatim>\<open>addDays(d, n)\<close> returns \<open>d\<close> when \<open>n\<close> is 0 and is
  \<^verbatim>\<open>setDate(getDate() + n)\<close> otherwise: the local fields of \<open>d\<close>, \<open>n\<close> calendar days
  later at the same local time, and the instant the time zone gives for them. The Invalid
  Date stays invalid.
\<close>

definition addDays :: "zone \<Rightarrow> Date \<Rightarrow> nat \<Rightarrow> Date" where
  "addDays z d amount =
     (if amount = 0 \<or> \<not> validTime d then d
      else utcOf z ((nextDay ^^ amount) (localTime z d)))"

text \<open>
  A number that grows with the order of the fields of existing times; it measures how far
  the scaffolding loop is from its end.
\<close>

definition timeKey :: "calendar \<Rightarrow> int" where
  "timeKey t = ((year t * 13 + int (month t)) * 32 + int (day t)) * 86400000 + int (millis t)"

section \<open>The data of the endpoint\<close>

text \<open>One row of a \<^verbatim>\<open>fathomClient.aggregatePath\<close> result: all fields are strings.\<close>

record aggregation =
  date :: string
  visits :: string
  pageviews :: string

text \<open>The values of \<^verbatim>\<open>datesValues\<close>, and the elements of \<^verbatim>\<open>AnalyticsHistoricalResponse\<close>.\<close>

record counts =
  visits :: number
  pageviews :: number

record bucket = counts +
  date :: string

text \<open>\<^verbatim>\<open>req.query\<close> cast to \<^verbatim>\<open>AnalyticsHistoricalParams\<close>: both fields are optional strings.\<close>

record query =
  dateFrom :: "string option"
  dateGrouping :: "string option"

record story =
  story_id :: string

text \<open>What \<^verbatim>\<open>getBucketUrl\<close> resolves to.\<close>

record 'p resolved =
  profile :: "'p option"
  bucketUrl :: "string option"

text \<open>The arguments of one \<^verbatim>\<open>fathomClient.aggregatePath\<close> call.\<close>

record aggregate_args =
  arg_dateFrom :: string
  arg_dateGrouping :: string
  arg_path :: string

text \<open>
  Everything the handler reads from outside during one request: the two clock readings
  (\<^verbatim>\<open>new Date()\<close> as the reference date of \<^verbatim>\<open>parse\<close>, then as \<^verbatim>\<open>dateTo\<close>), the
  values its collaborators resolve to, and the identifier \<^verbatim>\<open>Sentry.captureMessage\<close>
  returns for a message. The awaited calls are taken at the values they resolve to: a
  promise that rejects ends the handler with an exception before anything more is sent,
  and such runs are not described here. The time zone of the host, which the date-fns calls
  read, is a parameter of its own.
\<close>

record 'p env =
  referenceNow :: Date
  now :: Date
  getBucketUrl :: "query \<Rightarrow> string \<Rightarrow> 'p resolved"
  getPublicStories :: "string \<Rightarrow> story list"
  aggregatePath :: "aggregate_args \<Rightarrow> aggregation list"
  captureMessage :: "string \<Rightarrow> string"

text \<open>A JSON body passed to \<^verbatim>\<open>res.status(code).json(body)\<close>.\<close>

datatype json = Error string | Series "bucket list"

record response =
  status :: nat
  body :: json

text \<open>
  What one run of the handler does: its \<^verbatim>\<open>res.status(..).json(..)\<close> calls, the
  messages it gives to \<^verbatim>\<open>Sentry.captureMessage\<close>, the user names it resolves and the
  \<^verbatim>\<open>aggregatePath\<close> calls it makes, each in the order of the calls.
\<close>

record outcome =
  responses :: "response list"
  messages :: "string list"
  lookups :: "string list"
  fetches :: "aggregate_args list"

section \<open>The handler\<close>

subsection \<open>Scaffolding the days\<close>

text \<open>
  The \<^verbatim>\<open>while (isBefore(parsedDateFrom, dateTo))\<close> loop; the state is
  \<^verbatim>\<open>parsedDateFrom\<close> and \<^verbatim>\<open>historicalResponse\<close>.
\<close>

function scaffold :: "zone \<Rightarrow> Date \<Rightarrow> Date \<Rightarrow> bucket list \<Rightarrow> bucket list" where
  "scaffold z parsedDateFrom dateTo historicalResponse =
     (if isBefore parsedDateFrom dateTo
      then scaffold z (addDays z parsedDateFrom 1) dateTo
             (historicalResponse @ [\<lparr>visits = Num 0, pageviews = Num 0, date = format z parsedDateFrom\<rparr>])
      else historicalResponse)"
  by pat_completeness auto
termination
proof (relation "measure (\<lambda>(z, d, t, h). nat (timeKey t - timeKey d))")
  show "wf (measure (\<lambda>(z, d, t, h). nat (timeKey t - timeKey d)))"
    by simp
next
  fix z :: zone and parsedDateFrom dateTo :: Date and historicalResponse :: "bucket list"
  assume b: "isBefore parsedDateFrom dateTo"
  let ?next = "utcOf z (nextDay (localTime z parsedDateFrom))"
  have key: "timeKey a < timeKey b" if "validTime a" "validTime b" "earlier a b" for a b
  proof -
    have "month a \<le> 12" "day a \<le> 31" "millis a < 86400000" "1 \<le> month b" "1 \<le> day b"
      using that(1,2) by (auto simp: validTime_def validDay_def daysInMonth_def split: if_splits)
    with that(3) show ?thesis
      unfolding earlier_def timeKey_def by auto
  qed
  have zone: "timeZone (Rep_zone z)"
    using Rep_zone [of z] by simp
  have v: "validTime parsedDateFrom" and t: "validTime dateTo" and e: "earlier parsedDateFrom dateTo"
    using b by (simp_all add: isBefore_def)
  have local: "validTime (localTime z parsedDateFrom)" and later: "earlier parsedDateFrom ?next"
    using zone v by (simp_all add: timeZone_def localTime.rep_eq utcOf.rep_eq)
  have "validDay (nextDay f)" if "validDay f" for f
    using that by (auto simp: validDay_def nextDay_def daysInMonth_def)
  then have "validTime (nextDay (localTime z parsedDateFrom))"
    using local by (simp add: validTime_def nextDay_def)
  then have "validTime ?next"
    using zone by (simp add: timeZone_def utcOf.rep_eq)
  with v later have "timeKey parsedDateFrom < timeKey ?next"
    by (intro key)
  moreover have "timeKey parsedDateFrom < timeKey dateTo"
    using v t e by (rule key)
  ultimately show "((z, addDays z parsedDateFrom 1, dateTo,
          historicalResponse @ [\<lparr>visits = Num 0, pageviews = Num 0, date = format z parsedDateFrom\<rparr>]),
         (z, parsedDateFrom, dateTo, historicalResponse))
        \<in> measure (\<lambda>(z, d, t, h). nat (timeKey t - timeKey d))"
    using v by (simp add: addDays_def)
qed

declare scaffold.simps [simp del]

subsection \<open>Merging the provider's rows\<close>

text \<open>
  \<^verbatim>\<open>datesValues\<close> is an object used as a dictionary; the association list holds its
  own properties, in the order of their creation.
\<close>

type_synonym datesValues = "(string \<times> counts) list"

text \<open>
  \<^verbatim>\<open>datesValues\<close> is created by \<^verbatim>\<open>{}\<close>, so a lookup also finds the members it
  inherits from \<^verbatim>\<open>Object.prototype\<close>. All of them are functions or objects and hence
  true in a test.
\<close>

definition objectPrototypeMembers :: "string list" where
  "objectPrototypeMembers =
     [''constructor'', ''__defineGetter__'', ''__defineSetter__'', ''hasOwnProperty'',
      ''__lookupGetter__'', ''__lookupSetter__'', ''isPrototypeOf'', ''propertyIsEnumerable'',
      ''toString'', ''valueOf'', ''__proto__'', ''toLocaleString'']"

definition addTo :: "string \<Rightarrow> number \<Rightarrow> number \<Rightarrow> datesValues \<Rightarrow> datesValues" where
  "addTo k v p dv =
     map (\<lambda>(k', c). if k' = k
            then (k', c\<lparr>visits := plus_number (visits c) v, pageviews := plus_number (pageviews c) p\<rparr>)
            else (k', c)) dv"

text \<open>
  The body of the inner \<^verbatim>\<open>forEach\<close>, for one row. For a date that names a member of
  \<^verbatim>\<open>Object.prototype\<close> the test \<^verbatim>\<open>!datesValues[result.date]\<close> is false although
  \<^verbatim>\<open>datesValues\<close> has no such property of its own; the two assignments then set
  \<^verbatim>\<open>visits\<close> and \<^verbatim>\<open>pageviews\<close> on that member, which the handler never reads, and
  \<^verbatim>\<open>datesValues\<close> stays as it is.
\<close>

definition accumulate :: "datesValues \<Rightarrow> aggregation \<Rightarrow> datesValues" where
  "accumulate dv result =
     (if aggregation.date result \<in> set objectPrototypeMembers then dv
      else
        let dv1 = (if map_of dv (aggregation.date result) = None
                   then dv @ [(aggregation.date result, \<lparr>visits = Num 0, pageviews = Num 0\<rparr>)]
                   else dv)
        in addTo (aggregation.date result)
             (parseInt (aggregation.visits result)) (parseInt (aggregation.pageviews result)) dv1)"

text \<open>The two nested \<^verbatim>\<open>forEach\<close> loops over \<^verbatim>\<open>fathomAggregationResult\<close>.\<close>

definition merge :: "aggregation list list \<Rightarrow> datesValues" where
  "merge fathomAggregationResult =
     foldl (\<lambda>dv aggregationResult. foldl accumulate dv aggregationResult) [] fathomAggregationResult"

subsection \<open>Writing the totals back\<close>

text \<open>
  \<^verbatim>\<open>Object.keys\<close> lists the keys that are array indices first, in ascending numeric
  order, then the other keys in the order of their creation.
\<close>

definition isArrayIndex :: "string \<Rightarrow> bool" where
  "isArrayIndex k =
     (k \<noteq> [] \<and> list_all isDigit k \<and> (k = ''0'' \<or> take 1 k \<noteq> ''0'') \<and> decimal k < 4294967295)"

definition objectEntries :: "datesValues \<Rightarrow> (string \<times> counts) list" where
  "objectEntries dv =
     sort_key (\<lambda>e. decimal (fst e)) (filter (\<lambda>e. isArrayIndex (fst e)) dv)
     @ filter (\<lambda>e. \<not> isArrayIndex (fst e)) dv"

text \<open>
  The state the write-back loop changes: the series, and what has been sent and reported
  so far.
\<close>

record writing =
  historicalResponse :: "bucket list"
  sent :: "response list"
  reported :: "string list"

definition internalError :: "(string \<Rightarrow> string) \<Rightarrow> string \<Rightarrow> response" where
  "internalError capture message =
     \<lparr>status = 500, body = Error (''Internal server error: '' @ capture message)\<rparr>"

text \<open>
  The callback of \<^verbatim>\<open>Object.keys(datesValues).forEach\<close>, for one key and its value.
  Its \<^verbatim>\<open>return\<close> ends this call of the callback; \<^verbatim>\<open>forEach\<close> goes on with the next
  key.
\<close>

definition writeBack :: "(string \<Rightarrow> string) \<Rightarrow> string \<Rightarrow> writing \<Rightarrow> string \<times> counts \<Rightarrow> writing" where
  "writeBack capture username w entry =
     (case findIndex (\<lambda>historical. bucket.date historical = fst entry) (historicalResponse w) of
        None \<Rightarrow>
          w\<lparr>sent := sent w @
                [internalError capture (''No index for date '' @ fst entry @ '' and username '' @ username)],
            reported := reported w @ [''No index for date '' @ fst entry @ '' and username '' @ username]\<rparr>
      | Some index \<Rightarrow>
          w\<lparr>historicalResponse := (historicalResponse w)
               [index := (historicalResponse w ! index)
                  \<lparr>visits := visits (snd entry), pageviews := pageviews (snd entry)\<rparr>]\<rparr>)"

text \<open>The whole loop \<^verbatim>\<open>Object.keys(datesValues).forEach(..)\<close>.\<close>

definition writeBackAll :: "(string \<Rightarrow> string) \<Rightarrow> string \<Rightarrow> datesValues \<Rightarrow> writing \<Rightarrow> writing" where
  "writeBackAll capture username datesValues w =
     foldl (writeBack capture username) w (objectEntries datesValues)"

subsection \<open>\<^verbatim>\<open>analyticsHistoricalEndpoint\<close>\<close>

definition reply :: "nat \<Rightarrow> string \<Rightarrow> outcome" where
  "reply code message =
     \<lparr>responses = [\<lparr>status = code, body = Error message\<rparr>], messages = [], lookups = [], fetches = []\<rparr>"

definition storiesPath :: "string \<Rightarrow> story list \<Rightarrow> string list" where
  "storiesPath username publicStoriesFile =
     map (\<lambda>publicStory. ''/'' @ username @ ''/'' @ story_id publicStory) publicStoriesFile
     @ [''/'' @ username]"

text \<open>
  The four checks of the query, in the order of the source. \<^verbatim>\<open>!dateFrom\<close> holds for
  an absent parameter and for the empty string. A passed validation gives the
  \<^verbatim>\<open>dateFrom\<close> string, \<^verbatim>\<open>parsedDateFrom\<close> and \<^verbatim>\<open>dateGrouping\<close>.
\<close>

definition validate :: "zone \<Rightarrow> 'p env \<Rightarrow> query \<Rightarrow> outcome + (string \<times> Date \<times> string)" where
  "validate z e req =
     (case dateFrom req of
        None \<Rightarrow> Inl (reply 400 ''dateFrom is required'')
      | Some df \<Rightarrow>
     if df = [] then Inl (reply 400 ''dateFrom is required'')
     else
     (case parse z df (referenceNow e) of
        None \<Rightarrow> Inl (reply 400 ''dateFrom is invalid'')
      | Some parsedDateFrom \<Rightarrow>
     (case dateGrouping req of
        None \<Rightarrow> Inl (reply 400 ''dateGrouping is required'')
      | Some dg \<Rightarrow>
     if dg = [] then Inl (reply 400 ''dateGrouping is required'')
     else if dg \<noteq> ''day'' \<and> dg \<noteq> ''month''
       then Inl (reply 400 ''dateGrouping must be day or month'')
     else Inr (df, parsedDateFrom, dg))))"

text \<open>
  The branch \<^verbatim>\<open>if (!profile || !bucketUrl)\<close>: one message to Sentry, one response, and
  the handler returns.
\<close>

definition noBucket :: "'p env \<Rightarrow> string \<Rightarrow> outcome" where
  "noBucket e username =
     \<lparr>responses = [internalError (captureMessage e) (''No profile or bucketUrl for '' @ username)],
      messages = [''No profile or bucketUrl for '' @ username],
      lookups = [username], fetches = []\<rparr>"

text \<open>
  The handler from \<^verbatim>\<open>getBucketUrl\<close> on, given the validated parameters and the
  scaffolded \<^verbatim>\<open>historicalResponse\<close>. The last statement of the handler,
  \<^verbatim>\<open>res.status(200).json(historicalResponse)\<close>, follows the write-back loop whatever
  the loop has sent.
\<close>

definition aggregate :: "'p env \<Rightarrow> query \<Rightarrow> string \<Rightarrow> string \<Rightarrow> string \<Rightarrow> bucket list \<Rightarrow> outcome" where
  "aggregate e req username df dg scaffolded =
     (let r = getBucketUrl e req username in
      case (profile r, bucketUrl r) of
        (Some p, Some url) \<Rightarrow>
          if url = [] then noBucket e username
          else
            let paths = storiesPath username (getPublicStories e url);
                calls = map (\<lambda>path. \<lparr>arg_dateFrom = df, arg_dateGrouping = dg, arg_path = path\<rparr>) paths;
                fathomAggregationResult = map (aggregatePath e) calls;
                datesValues = merge fathomAggregationResult;
                w = writeBackAll (captureMessage e) username datesValues
                      \<lparr>historicalResponse = scaffolded, sent = [], reported = []\<rparr>
            in \<lparr>responses = sent w @ [\<lparr>status = 200, body = Series (historicalResponse w)\<rparr>],
                messages = reported w, lookups = [username], fetches = calls\<rparr>
      | _ \<Rightarrow> noBucket e username)"

definition analyticsHistoricalEndpoint :: "zone \<Rightarrow> 'p env \<Rightarrow> query \<Rightarrow> outcome" where
  "analyticsHistoricalEndpoint z e req =
     (case validate z e req of
        Inl out \<Rightarrow> out
      | Inr (df, parsedDateFrom, dg) \<Rightarrow>
          let username = ''sigleapp.id.blockstack'';
              dateTo = now e;
              scaffolded = scaffold z parsedDateFrom dateTo []
          in aggregate e req username df dg scaffolded)"

section \<open>Notions used in the statements\<close>

text \<open>\<^verbatim>\<open>!x\<close> for an optional string: the parameter is absent or empty.\<close>

definition missing :: "string option \<Rightarrow> bool" where
  "missing p = (p = None \<or> p = Some [])"

text \<open>A run that does nothing but answer 400 with \<^verbatim>\<open>{ error: message }\<close>.\<close>

definition badRequest :: "string \<Rightarrow> outcome" where
  "badRequest message =
     \<lparr>responses = [\<lparr>status = 400, body = Error message\<rparr>], messages = [], lookups = [], fetches = []\<rparr>"

text \<open>The order of calendar days: the time of day is not compared.\<close>

definition dayBefore :: "calendar \<Rightarrow> calendar \<Rightarrow> bool" where
  "dayBefore a b =
     (year a < year b \<or> (year a = year b \<and>
       (month a < month b \<or> (month a = month b \<and> day a < day b))))"

text \<open>The object the scaffolding loop pushes for a calendar day.\<close>

definition emptyBucket :: "calendar \<Rightarrow> bucket" where
  "emptyBucket c = \<lparr>visits = Num 0, pageviews = Num 0, date = formatFields c\<rparr>"

text \<open>The rows for one date, over all per-path results, in the order of the results.\<close>

definition rowsOf :: "string \<Rightarrow> aggregation list list \<Rightarrow> aggregation list" where
  "rowsOf k fathomAggregationResult =
     filter (\<lambda>result. aggregation.date result = k) (concat fathomAggregationResult)"

text \<open>The sum of a list of numbers, starting from zero, as JavaScript adds them.\<close>

definition total :: "number list \<Rightarrow> number" where
  "total ns = foldl plus_number (Num 0) ns"

text \<open>One row added to the running totals of its date.\<close>

definition addRow :: "counts \<Rightarrow> aggregation \<Rightarrow> counts" where
  "addRow c r = c\<lparr>visits := plus_number (visits c) (parseInt (aggregation.visits r)),
                  pageviews := plus_number (pageviews c) (parseInt (aggregation.pageviews r))\<rparr>"

text \<open>A number that is a non-negative integer: not \<^verbatim>\<open>NaN\<close> and not infinite.\<close>

fun nonNegative :: "number \<Rightarrow> bool" where
  "nonNegative (Num n) = (0 \<le> n)"
| "nonNegative NaN = False"
| "nonNegative PosInfinity = False"
| "nonNegative NegInfinity = False"

text \<open>The integer a number stands for (0 for the numbers that are no integer).\<close>

fun amount :: "number \<Rightarrow> int" where
  "amount (Num n) = n"
| "amount NaN = 0"
| "amount PosInfinity = 0"
| "amount NegInfinity = 0"

text \<open>
  The sum of the visits, and of the page views, that \<^verbatim>\<open>parseInt\<close> reads in a list of
  rows, as integers.
\<close>

definition sumVisits :: "aggregation list \<Rightarrow> int" where
  "sumVisits rows = sum_list (map (\<lambda>result. amount (parseInt (aggregation.visits result))) rows)"

definition sumPageviews :: "aggregation list \<Rightarrow> int" where
  "sumPageviews rows = sum_list (map (\<lambda>result. amount (parseInt (aggregation.pageviews result))) rows)"

section \<open>Example requests\<close>

definition aggregationRow :: "string \<Rightarrow> string \<Rightarrow> string \<Rightarrow> aggregation" where
  "aggregationRow d v p = \<lparr>aggregation.date = d, aggregation.visits = v, aggregation.pageviews = p\<rparr>"

text \<open>A host whose local time is UTC.\<close>

lift_definition utcZone :: zone is "(\<lambda>t. t, \<lambda>f. f)"
  by (simp add: timeZone_def earlier_def nextDay_def)

definition jan1 :: Date where
  "jan1 = \<lparr>year = 2024, month = 1, day = 1, millis = 0\<rparr>"

definition jan4 :: Date where
  "jan4 = \<lparr>year = 2024, month = 1, day = 4, millis = 0\<rparr>"

definition jan3_10am :: Date where
  "jan3_10am = \<lparr>year = 2024, month = 1, day = 3, millis = 36000000\<rparr>"

definition jan3_9am :: Date where
  "jan3_9am = \<lparr>year = 2024, month = 1, day = 3, millis = 32400000\<rparr>"

definition gaia :: "query \<Rightarrow> string \<Rightarrow> unit resolved" where
  "gaia q u = \<lparr>profile = Some (), bucketUrl = Some ''https://gaia.example/hub/''\<rparr>"

definition twoStories :: "string \<Rightarrow> story list" where
  "twoStories url = [\<lparr>story_id = ''a''\<rparr>, \<lparr>story_id = ''b''\<rparr>]"

text \<open>
  The provider has data for one story only, on 2024-01-02: 4 visits and 7 page views.
\<close>

definition oneStoryProvider :: "aggregate_args \<Rightarrow> aggregation list" where
  "oneStoryProvider a =
     (if arg_path a = ''/sigleapp.id.blockstack/a'' then [aggregationRow ''2024-01-02'' ''4'' ''7'']
      else [])"

definition oneStoryEnv :: "unit env" where
  "oneStoryEnv =
     \<lparr>referenceNow = jan3_9am, now = jan3_10am, getBucketUrl = gaia, getPublicStories = twoStories,
      aggregatePath = oneStoryProvider, captureMessage = (\<lambda>m. ''e1'')\<rparr>"

text \<open>The provider also has a row for 2023-12-31, a day before the requested range.\<close>

definition driftProvider :: "aggregate_args \<Rightarrow> aggregation list" where
  "driftProvider a =
     (if arg_path a = ''/sigleapp.id.blockstack/a''
      then [aggregationRow ''2024-01-02'' ''4'' ''7'', aggregationRow ''2023-12-31'' ''1'' ''1'']
      else [])"

definition driftEnv :: "unit env" where
  "driftEnv =
     \<lparr>referenceNow = jan3_10am, now = jan3_10am, getBucketUrl = gaia, getPublicStories = twoStories,
      aggregatePath = driftProvider, captureMessage = (\<lambda>m. ''e1'')\<rparr>"

text \<open>The provider's strings for 2024-01-02 are a negative number and a text.\<close>

definition oddProvider :: "aggregate_args \<Rightarrow> aggregation list" where
  "oddProvider a =
     (if arg_path a = ''/sigleapp.id.blockstack'' then [aggregationRow ''2024-01-02'' ''-3'' ''n/a'']
      else [])"

definition oddEnv :: "unit env" where
  "oddEnv =
     \<lparr>referenceNow = jan3_10am, now = jan3_10am, getBucketUrl = gaia, getPublicStories = twoStories,
      aggregatePath = oddProvider, captureMessage = (\<lambda>m. ''e1'')\<rparr>"

text \<open>No story is published and the provider has no data.\<close>

definition quietEnv :: "unit env" where
  "quietEnv =
     \<lparr>referenceNow = jan3_10am, now = jan3_10am, getBucketUrl = gaia, getPublicStories = (\<lambda>url. []),
      aggregatePath = (\<lambda>a. []), captureMessage = (\<lambda>m. ''e1'')\<rparr>"

definition dayQuery :: query where
  "dayQuery = \<lparr>dateFrom = Some ''2024-01-01'', dateGrouping = Some ''day''\<rparr>"

definition monthQuery :: query where
  "monthQuery = \<lparr>dateFrom = Some ''2024-01-01'', dateGrouping = Some ''month''\<rparr>"

definition futureQuery :: query where
  "futureQuery = \<lparr>dateFrom = Some ''2024-01-04'', dateGrouping = Some ''day''\<rparr>"










section \<open>Evaluation on concrete inputs\<close>

lemma localTime_utcZone: "localTime utcZone t = t"
  by (simp add: localTime.rep_eq utcZone.rep_eq)

lemma utcOf_utcZone: "utcOf utcZone f = f"
  by (simp add: utcOf.rep_eq utcZone.rep_eq)



lemmas eval_defs = parse_def parseFields_def parseNDigits_def cutToken_def isDigit_def digitValue_def
  decimal_def isWhiteSpace_def daysInMonth_def isLeapYear_def char_of_eq_iff format_def formatFields_def
  addLeadingZeros_def digits.simps isBefore_def validTime_def validDay_def earlier_def addDays_def
  nextDay_def localTime_utcZone utcOf_utcZone

lemma roundDouble_exact:
  assumes "\<bar>n\<bar> \<le> 9007199254740992"
  shows "roundDouble n = Num n"
proof -
  have "nat \<bar>n\<bar> \<le> 9007199254740992"
    using assms by linarith
  then show ?thesis
    unfolding roundDouble_def Let_def by (simp only: if_True)
qed

lemma parse_not_a_date: "parse z ''not-a-date'' r = None"
  by (simp add: eval_defs)

lemma parse_jan1: "parse utcZone ''2024-01-01'' r = Some jan1"
  by (simp add: eval_defs jan1_def)

lemma parse_jan4: "parse utcZone ''2024-01-04'' r = Some jan4"
  by (simp add: eval_defs jan4_def)

lemma validate_dayQuery:
  fixes e :: "'p env"
  shows "validate utcZone e dayQuery = Inr (''2024-01-01'', jan1, ''day'')"
  by (simp add: validate_def dayQuery_def parse_jan1)

lemma validate_monthQuery:
  fixes e :: "'p env"
  shows "validate utcZone e monthQuery = Inr (''2024-01-01'', jan1, ''month'')"
  by (simp add: validate_def monthQuery_def parse_jan1)

lemma validate_futureQuery:
  fixes e :: "'p env"
  shows "validate utcZone e futureQuery = Inr (''2024-01-04'', jan4, ''day'')"
  by (simp add: validate_def futureQuery_def parse_jan4)

lemma scaffold_jan:
  "scaffold utcZone jan1 jan3_10am []
    = [\<lparr>visits = Num 0, pageviews = Num 0, date = ''2024-01-01''\<rparr>,
       \<lparr>visits = Num 0, pageviews = Num 0, date = ''2024-01-02''\<rparr>,
       \<lparr>visits = Num 0, pageviews = Num 0, date = ''2024-01-03''\<rparr>]"
  by (simp add: scaffold.simps eval_defs jan1_def jan3_10am_def)

lemma parseInt_examples:
  "parseInt ''4'' = Num 4" "parseInt ''7'' = Num 7" "parseInt ''1'' = Num 1"
  "parseInt ''3'' = Num 3" "parseInt ''5'' = Num 5" "parseInt ''2'' = Num 2"
  "parseInt ''-3'' = Num (- 3)" "parseInt ''n/a'' = NaN"
  by (simp_all add: parseInt_def eval_defs roundDouble_exact)

lemma isArrayIndex_dates:
  "\<not> isArrayIndex ''2024-01-01''" "\<not> isArrayIndex ''2024-01-02''" "\<not> isArrayIndex ''2023-12-31''"
  by (simp_all add: isArrayIndex_def eval_defs)

section \<open>The validation\<close>

lemma validate_cases:
  fixes e :: "'p env"
  shows "validate z e req =
     (if missing (dateFrom req) then Inl (reply 400 ''dateFrom is required'')
      else if parse z (the (dateFrom req)) (referenceNow e) = None then Inl (reply 400 ''dateFrom is invalid'')
      else if missing (dateGrouping req) then Inl (reply 400 ''dateGrouping is required'')
      else if dateGrouping req \<noteq> Some ''day'' \<and> dateGrouping req \<noteq> Some ''month''
        then Inl (reply 400 ''dateGrouping must be day or month'')
      else Inr (the (dateFrom req), the (parse z (the (dateFrom req)) (referenceNow e)), the (dateGrouping req)))"
  by (auto simp: validate_def missing_def split: option.splits)

section \<open>The stages of the handler\<close>

lemma endpoint_valid:
  fixes e :: "'p env"
  assumes "validate z e req = Inr (df, d, dg)"
  shows "analyticsHistoricalEndpoint z e req =
           aggregate e req ''sigleapp.id.blockstack'' df dg (scaffold z d (now e) [])"
  using assms by (simp add: analyticsHistoricalEndpoint_def)

lemma endpoint_invalid:
  fixes e :: "'p env"
  assumes "validate z e req = Inl out"
  shows "analyticsHistoricalEndpoint z e req = out"
  using assms by (simp add: analyticsHistoricalEndpoint_def)

lemma validate_Inl:
  fixes e :: "'p env"
  assumes "validate z e req = Inl out"
  shows "lookups out = [] \<and> fetches out = [] \<and> messages out = []
         \<and> (\<exists>m. responses out = [\<lparr>status = 400, body = Error m\<rparr>])"
  using assms by (auto simp: validate_def reply_def split: option.splits if_splits)

lemma aggregate_resolved:
  fixes e :: "'p env"
  assumes "profile (getBucketUrl e req u) = Some p"
    and "bucketUrl (getBucketUrl e req u) = Some url" and "url \<noteq> []"
  shows "aggregate e req u df dg hr =
     (let calls = map (\<lambda>path. \<lparr>arg_dateFrom = df, arg_dateGrouping = dg, arg_path = path\<rparr>)
                    (storiesPath u (getPublicStories e url));
          w = writeBackAll (captureMessage e) u (merge (map (aggregatePath e) calls))
                \<lparr>historicalResponse = hr, sent = [], reported = []\<rparr>
      in \<lparr>responses = sent w @ [\<lparr>status = 200, body = Series (historicalResponse w)\<rparr>],
          messages = reported w, lookups = [u], fetches = calls\<rparr>)"
  using assms by (simp add: aggregate_def Let_def)

lemma aggregate_lookups:
  fixes e :: "'p env"
  shows "lookups (aggregate e req u df dg hr) = [u]"
  by (simp add: aggregate_def noBucket_def Let_def split: option.splits)

section \<open>The write-back loop\<close>

subsection \<open>findIndex\<close>

lemma findIndex_Some:
  "findIndex p xs = Some i \<Longrightarrow> i < length xs \<and> p (xs ! i)"
proof (induction xs arbitrary: i)
  case Nil
  then show ?case by simp
next
  case (Cons x xs)
  then show ?case by (auto split: if_splits)
qed

lemma findIndex_None: "findIndex p xs = None \<longleftrightarrow> list_all (\<lambda>x. \<not> p x) xs"
  by (induction xs) auto

subsection \<open>One step of the write-back\<close>

lemma writeBack_dates:
  "map bucket.date (historicalResponse (writeBack c u w en)) = map bucket.date (historicalResponse w)"
proof (cases "findIndex (\<lambda>historical. bucket.date historical = fst en) (historicalResponse w)")
  case None
  then show ?thesis by (simp add: writeBack_def)
next
  case (Some i)
  from findIndex_Some [OF Some] have "i < length (historicalResponse w)"
    and "bucket.date (historicalResponse w ! i) = fst en" by simp_all
  then show ?thesis
    using Some by (simp add: writeBack_def map_update list_update_same_conv)
qed

lemma writeBack_other:
  assumes "bucket.date (historicalResponse w ! i) \<noteq> fst en"
  shows "historicalResponse (writeBack c u w en) ! i = historicalResponse w ! i"
proof (cases "findIndex (\<lambda>historical. bucket.date historical = fst en) (historicalResponse w)")
  case None
  then show ?thesis by (simp add: writeBack_def)
next
  case (Some j)
  from findIndex_Some [OF Some] have "bucket.date (historicalResponse w ! j) = fst en" by simp
  with assms have "i \<noteq> j" by auto
  then show ?thesis using Some by (simp add: writeBack_def)
qed

lemma writeBack_sent_500:
  assumes "list_all (\<lambda>r. status r = 500) (sent w)"
  shows "list_all (\<lambda>r. status r = 500) (sent (writeBack c u w en))"
  using assms by (simp add: writeBack_def internalError_def split: option.splits)

subsection \<open>The whole write-back\<close>

lemma foldl_writeBack_dates:
  "map bucket.date (historicalResponse (foldl (writeBack c u) w es)) = map bucket.date (historicalResponse w)"
  by (induction es arbitrary: w) (simp_all add: writeBack_dates)

lemma foldl_writeBack_length:
  "length (historicalResponse (foldl (writeBack c u) w es)) = length (historicalResponse w)"
  using foldl_writeBack_dates [of c u w es, THEN arg_cong, of length] by simp

lemma foldl_writeBack_other:
  assumes "bucket.date (historicalResponse w ! i) \<notin> fst ` set es"
  shows "historicalResponse (foldl (writeBack c u) w es) ! i = historicalResponse w ! i"
  using assms
proof (induction es arbitrary: w)
  case Nil
  then show ?case by simp
next
  case (Cons en es)
  have same: "historicalResponse (writeBack c u w en) ! i = historicalResponse w ! i"
    using Cons.prems by (intro writeBack_other) simp
  have "bucket.date (historicalResponse (writeBack c u w en) ! i) \<notin> fst ` set es"
    using Cons.prems same by simp
  from Cons.IH [OF this] same show ?case by simp
qed

lemma foldl_writeBack_sent_500:
  assumes "list_all (\<lambda>r. status r = 500) (sent w)"
  shows "list_all (\<lambda>r. status r = 500) (sent (foldl (writeBack c u) w es))"
  using assms by (induction es arbitrary: w) (simp_all add: writeBack_sent_500)

lemma set_objectEntries: "set (objectEntries dv) = set dv"
  by (auto simp: objectEntries_def)

section \<open>The merge\<close>

lemma map_of_addTo:
  "map_of (addTo k v p dv) k' =
     (if k' = k then map_option (\<lambda>c. c\<lparr>visits := plus_number (visits c) v, pageviews := plus_number (pageviews c) p\<rparr>) (map_of dv k)
      else map_of dv k')"
  by (induction dv) (auto simp: addTo_def)

lemma keys_addTo: "map fst (addTo k v p dv) = map fst dv"
  by (induction dv) (auto simp: addTo_def)

lemma map_of_snoc:
  "map_of (dv @ [(k, z)]) k' = (case map_of dv k' of Some c \<Rightarrow> Some c | None \<Rightarrow> if k' = k then Some z else None)"
  by (induction dv) auto

lemma accumulate_member:
  "aggregation.date r \<in> set objectPrototypeMembers \<Longrightarrow> accumulate dv r = dv"
  by (simp add: accumulate_def)

lemma accumulate_other:
  "aggregation.date r \<notin> set objectPrototypeMembers \<Longrightarrow>
   accumulate dv r =
     addTo (aggregation.date r) (parseInt (aggregation.visits r)) (parseInt (aggregation.pageviews r))
       (if map_of dv (aggregation.date r) = None
        then dv @ [(aggregation.date r, \<lparr>visits = Num 0, pageviews = Num 0\<rparr>)]
        else dv)"
  by (simp add: accumulate_def Let_def)

lemma map_of_accumulate:
  assumes "aggregation.date r \<notin> set objectPrototypeMembers"
  shows "map_of (accumulate dv r) k =
     (if k = aggregation.date r
      then Some (addRow (case map_of dv k of None \<Rightarrow> \<lparr>visits = Num 0, pageviews = Num 0\<rparr> | Some c \<Rightarrow> c) r)
      else map_of dv k)"
proof (cases "map_of dv (aggregation.date r)")
  case None
  then show ?thesis
    unfolding accumulate_other [OF assms]
    by (simp add: map_of_addTo addRow_def map_of_snoc del: map_of_append split: option.splits)
next
  case (Some c)
  then show ?thesis
    unfolding accumulate_other [OF assms]
    by (simp add: map_of_addTo addRow_def)
qed

lemma keys_accumulate:
  "map fst (accumulate dv r) =
     (if aggregation.date r \<in> set objectPrototypeMembers \<or> aggregation.date r \<in> set (map fst dv)
      then map fst dv else map fst dv @ [aggregation.date r])"
proof (cases "aggregation.date r \<in> set objectPrototypeMembers")
  case True
  then show ?thesis by (simp add: accumulate_member)
next
  case False
  then show ?thesis
    unfolding accumulate_other [OF False]
    by (auto simp: keys_addTo map_of_eq_None_iff)
qed

lemma distinct_accumulate: "distinct (map fst dv) \<Longrightarrow> distinct (map fst (accumulate dv r))"
  by (simp add: keys_accumulate)

lemma set_keys_accumulate:
  "set (map fst (accumulate dv r)) = set (map fst dv) \<union> ({aggregation.date r} - set objectPrototypeMembers)"
  by (auto simp: keys_accumulate)

lemma set_keys_foldl_accumulate:
  "set (map fst (foldl accumulate dv rows))
     = set (map fst dv) \<union> (aggregation.date ` set rows - set objectPrototypeMembers)"
proof (induction rows arbitrary: dv)
  case Nil
  then show ?case by simp
next
  case (Cons r rows)
  have "set (map fst (foldl accumulate (accumulate dv r) rows))
          = set (map fst (accumulate dv r)) \<union> (aggregation.date ` set rows - set objectPrototypeMembers)"
    by (rule Cons.IH)
  then show ?case
    unfolding set_keys_accumulate by auto
qed

lemma distinct_foldl_accumulate:
  "distinct (map fst dv) \<Longrightarrow> distinct (map fst (foldl accumulate dv rows))"
  by (induction rows arbitrary: dv) (simp_all add: distinct_accumulate)

lemma map_of_foldl_accumulate:
  assumes "k \<notin> set objectPrototypeMembers"
  shows "map_of (foldl accumulate dv rows) k =
     (case map_of dv k of
        Some c \<Rightarrow> Some (foldl addRow c (filter (\<lambda>r. aggregation.date r = k) rows))
      | None \<Rightarrow>
          if filter (\<lambda>r. aggregation.date r = k) rows = [] then None
          else Some (foldl addRow \<lparr>visits = Num 0, pageviews = Num 0\<rparr> (filter (\<lambda>r. aggregation.date r = k) rows)))"
proof (induction rows arbitrary: dv)
  case Nil
  then show ?case by (simp split: option.splits)
next
  case (Cons r rows)
  show ?case
  proof (cases "aggregation.date r \<in> set objectPrototypeMembers")
    case True
    with assms have "aggregation.date r \<noteq> k" by auto
    with True show ?thesis
      by (simp add: Cons.IH accumulate_member split: option.splits)
  next
    case False
    show ?thesis
      by (simp add: Cons.IH map_of_accumulate [OF False] split: option.splits)
  qed
qed

lemma merge_concat: "merge results = foldl accumulate [] (concat results)"
proof -
  have "foldl (\<lambda>dv aggregationResult. foldl accumulate dv aggregationResult) dv results
          = foldl accumulate dv (concat results)" for dv
    by (induction results arbitrary: dv) simp_all
  then show ?thesis by (simp add: merge_def)
qed

lemma visits_foldl_addRow:
  "visits (foldl addRow c rows) = foldl plus_number (visits c) (map (\<lambda>r. parseInt (aggregation.visits r)) rows)"
  by (induction rows arbitrary: c) (simp_all add: addRow_def)

lemma pageviews_foldl_addRow:
  "pageviews (foldl addRow c rows) = foldl plus_number (pageviews c) (map (\<lambda>r. parseInt (aggregation.pageviews r)) rows)"
  by (induction rows arbitrary: c) (simp_all add: addRow_def)

subsection \<open>Sums in the range where doubles are exact\<close>

lemma foldl_plus_Num:
  assumes "\<bar>a\<bar> + sum_list (map abs xs) \<le> 9007199254740992"
  shows "foldl plus_number (Num a) (map Num xs) = Num (a + sum_list xs)"
  using assms
proof (induction xs arbitrary: a)
  case Nil
  then show ?case by simp
next
  case (Cons x xs)
  have nonneg: "0 \<le> sum_list (map abs xs)"
    by (rule sum_list_nonneg) auto
  have "\<bar>a + x\<bar> \<le> 9007199254740992"
    using Cons.prems nonneg by simp
  then have step: "plus_number (Num a) (Num x) = Num (a + x)"
    by (simp add: roundDouble_exact)
  have "\<bar>a + x\<bar> + sum_list (map abs xs) \<le> 9007199254740992"
    using Cons.prems by simp
  then have "foldl plus_number (Num (a + x)) (map Num xs) = Num (a + x + sum_list xs)"
    by (rule Cons.IH)
  with step show ?case by (simp add: add.assoc)
qed

lemma total_exact:
  assumes "sum_list (map abs xs) \<le> 9007199254740992"
  shows "total (map Num xs) = Num (sum_list xs)"
  using foldl_plus_Num [of 0 xs] assms by (simp add: total_def)

section \<open>Dates and their format\<close>

subsection \<open>Decimal strings\<close>








subsection \<open>The date strings tell days apart\<close>



subsection \<open>The calendar order and the next day\<close>

lemma nextDay_valid: "validDay d \<Longrightarrow> validDay (nextDay d)"
  by (auto simp: validDay_def nextDay_def daysInMonth_def)

lemma nextDay_millis: "millis (nextDay d) = millis d"
  by (simp add: nextDay_def)

lemma nextDay_validTime: "validTime d \<Longrightarrow> validTime (nextDay d)"
  by (simp add: validTime_def nextDay_valid nextDay_millis)



lemma dayBefore_irrefl: "\<not> dayBefore a a"
  by (simp add: dayBefore_def)






lemma earlier_irrefl: "\<not> earlier a a"
  by (simp add: earlier_def)





subsection \<open>Time zones\<close>

lemma zone_local_valid: "validTime t \<Longrightarrow> validTime (localTime z t)"
  using Rep_zone [of z] by (simp add: timeZone_def localTime.rep_eq)



section \<open>The scaffolding loop\<close>

lemma addDays_next:
  assumes "isBefore d t"
  shows "addDays z d 1 = utcOf z (nextDay (localTime z d))"
    and "addDays z d (Suc 0) = utcOf z (nextDay (localTime z d))"
  using assms by (simp_all add: addDays_def isBefore_def)

lemma scaffold_step:
  "isBefore d t \<Longrightarrow>
   scaffold z d t hr = scaffold z (utcOf z (nextDay (localTime z d))) t (hr @ [emptyBucket (localTime z d)])"
  by (subst scaffold.simps) (simp add: addDays_next emptyBucket_def format_def)

lemma scaffold_stop: "\<not> isBefore d t \<Longrightarrow> scaffold z d t hr = hr"
  by (subst scaffold.simps) simp

lemma scaffold_append_all: "\<forall>hr. scaffold z d t hr = hr @ scaffold z d t []"
proof -
  define P where "P = (\<lambda>z d t (h :: bucket list). \<forall>hr. scaffold z d t hr = hr @ scaffold z d t [])"
  have "P z d t h" for h
  proof (induction z d t h rule: scaffold.induct)
    case (1 z d t h)
    show ?case
    proof (cases "isBefore d t")
      case True
      let ?n = "utcOf z (nextDay (localTime z d))"
      let ?b = "emptyBucket (localTime z d)"
      have "P z ?n t (h @ [\<lparr>visits = Num 0, pageviews = Num 0, date = format z d\<rparr>])"
        using 1 [OF True] by (simp only: addDays_next [OF True])
      then have IH: "scaffold z ?n t hr = hr @ scaffold z ?n t []" for hr
        unfolding P_def by (rule spec)
      have "scaffold z d t hr = hr @ scaffold z d t []" for hr
      proof -
        have "scaffold z d t hr = scaffold z ?n t (hr @ [?b])"
          using True by (rule scaffold_step)
        also have "\<dots> = (hr @ [?b]) @ scaffold z ?n t []"
          by (rule IH)
        finally have whole: "scaffold z d t hr = hr @ [?b] @ scaffold z ?n t []"
          by simp
        have "scaffold z d t [] = scaffold z ?n t ([] @ [?b])"
          using True by (rule scaffold_step)
        also have "\<dots> = ([] @ [?b]) @ scaffold z ?n t []"
          by (rule IH)
        finally have "scaffold z d t [] = [?b] @ scaffold z ?n t []"
          by simp
        with whole show ?thesis by simp
      qed
      then show ?thesis unfolding P_def by (rule allI)
    next
      case False
      then show ?thesis by (simp add: scaffold_stop P_def)
    qed
  qed
  then show ?thesis unfolding P_def .
qed

lemma scaffold_append: "scaffold z d t hr = hr @ scaffold z d t []"
  using scaffold_append_all by blast

lemma scaffold_cons:
  assumes "isBefore d t"
  shows "scaffold z d t [] = emptyBucket (localTime z d) # scaffold z (utcOf z (nextDay (localTime z d))) t []"
proof -
  have "scaffold z d t [] = scaffold z (utcOf z (nextDay (localTime z d))) t ([] @ [emptyBucket (localTime z d)])"
    using assms by (rule scaffold_step)
  also have "\<dots> = [emptyBucket (localTime z d)] @ scaffold z (utcOf z (nextDay (localTime z d))) t []"
    using scaffold_append [of z "utcOf z (nextDay (localTime z d))" t "[emptyBucket (localTime z d)]"] by simp
  finally show ?thesis by simp
qed

lemma scaffold_zero:
  "list_all (\<lambda>b. visits b = Num 0 \<and> pageviews b = Num 0) (scaffold z d t [])"
proof -
  define P where "P = (\<lambda>z d t (h :: bucket list).
     list_all (\<lambda>b. visits b = Num 0 \<and> pageviews b = Num 0) (scaffold z d t []))"
  have "P z d t h" for h
  proof (induction z d t h rule: scaffold.induct)
    case (1 z d t h)
    show ?case
    proof (cases "isBefore d t")
      case True
      have "P z (utcOf z (nextDay (localTime z d))) t
              (h @ [\<lparr>visits = Num 0, pageviews = Num 0, date = format z d\<rparr>])"
        using 1 [OF True] by (simp only: addDays_next [OF True])
      then show ?thesis
        unfolding P_def scaffold_cons [OF True] by (simp add: emptyBucket_def)
    next
      case False
      then show ?thesis by (simp add: scaffold_stop P_def)
    qed
  qed
  then show ?thesis unfolding P_def .
qed

subsection \<open>Hosts on which every local midnight exists\<close>




subsection \<open>parse\<close>

lemma parse_reference: "parse z s r1 = parse z s r2"
  by (simp add: parse_def)


lemma parse_Some:
  assumes "parse z s r = Some d"
  shows "\<exists>c. parseFields s = Some c \<and> d = utcOf z c"
  using assms by (auto simp: parse_def)

lemma validate_Inr:
  fixes e :: "'p env"
  assumes "validate z e req = Inr (df, d, dg)"
  shows "dateFrom req = Some df \<and> df \<noteq> [] \<and> parse z df (referenceNow e) = Some d
         \<and> dateGrouping req = Some dg \<and> (dg = ''day'' \<or> dg = ''month'')"
  using assms by (auto simp: validate_def split: option.splits if_splits)


subsection \<open>distinct dates\<close>

lemma sorted_dayBefore_distinct: "sorted_wrt dayBefore ds \<Longrightarrow> distinct ds"
  by (induction ds) (auto simp: dayBefore_irrefl)



section \<open>The whole handler\<close>

lemma endpoint_resolved:
  fixes e :: "'p env"
  assumes "validate z e req = Inr (df, d, dg)"
    and "profile (getBucketUrl e req ''sigleapp.id.blockstack'') = Some p"
    and "bucketUrl (getBucketUrl e req ''sigleapp.id.blockstack'') = Some url"
    and "url \<noteq> []"
  shows "analyticsHistoricalEndpoint z e req =
     (let calls = map (\<lambda>path. \<lparr>arg_dateFrom = df, arg_dateGrouping = dg, arg_path = path\<rparr>)
                    (storiesPath ''sigleapp.id.blockstack'' (getPublicStories e url));
          w = writeBackAll (captureMessage e) ''sigleapp.id.blockstack'' (merge (map (aggregatePath e) calls))
                \<lparr>historicalResponse = scaffold z d (now e) [], sent = [], reported = []\<rparr>
      in \<lparr>responses = sent w @ [\<lparr>status = 200, body = Series (historicalResponse w)\<rparr>],
          messages = reported w, lookups = [''sigleapp.id.blockstack''], fetches = calls\<rparr>)"
  unfolding endpoint_valid [OF assms(1)] by (rule aggregate_resolved [OF assms(2,3,4)])

lemma writeBackAll_dates:
  "map bucket.date (historicalResponse (writeBackAll c u dv w)) = map bucket.date (historicalResponse w)"
  by (simp add: writeBackAll_def foldl_writeBack_dates)

lemma writeBackAll_other:
  assumes "bucket.date (historicalResponse w ! i) \<notin> fst ` set dv"
  shows "historicalResponse (writeBackAll c u dv w) ! i = historicalResponse w ! i"
  unfolding writeBackAll_def
  by (rule foldl_writeBack_other) (simp add: set_objectEntries assms)

lemma writeBackAll_sent_500:
  "list_all (\<lambda>r. status r = 500) (sent (writeBackAll c u dv \<lparr>historicalResponse = hr, sent = [], reported = []\<rparr>))"
  unfolding writeBackAll_def by (rule foldl_writeBack_sent_500) simp

lemma keys_merge:
  "fst ` set (merge results) = aggregation.date ` set (concat results) - set objectPrototypeMembers"
  using set_keys_foldl_accumulate [of "[]" "concat results"] by (simp add: merge_concat)

section \<open>The stages together\<close>

subsection \<open>The totals of a date\<close>

lemma map_of_merge:
  assumes "k \<notin> set objectPrototypeMembers"
  shows "map_of (merge results) k =
     (if rowsOf k results = [] then None
      else Some (foldl addRow \<lparr>visits = Num 0, pageviews = Num 0\<rparr> (rowsOf k results)))"
  by (simp add: merge_concat map_of_foldl_accumulate [OF assms] rowsOf_def)

lemma foldl_addRow_totals:
  "foldl addRow \<lparr>visits = Num 0, pageviews = Num 0\<rparr> rows =
     \<lparr>visits = total (map (\<lambda>r. parseInt (aggregation.visits r)) rows),
      pageviews = total (map (\<lambda>r. parseInt (aggregation.pageviews r)) rows)\<rparr>"
proof -
  have "visits (foldl addRow \<lparr>visits = Num 0, pageviews = Num 0\<rparr> rows)
          = total (map (\<lambda>r. parseInt (aggregation.visits r)) rows)"
    by (simp add: visits_foldl_addRow total_def)
  moreover have "pageviews (foldl addRow \<lparr>visits = Num 0, pageviews = Num 0\<rparr> rows)
          = total (map (\<lambda>r. parseInt (aggregation.pageviews r)) rows)"
    by (simp add: pageviews_foldl_addRow total_def)
  ultimately show ?thesis by (cases "foldl addRow \<lparr>visits = Num 0, pageviews = Num 0\<rparr> rows") simp
qed

lemma distinct_merge: "distinct (map fst (merge results))"
  using distinct_foldl_accumulate [of "[]" "concat results"] by (simp add: merge_concat)

lemma merge_example:
  "merge [[aggregationRow ''2024-01-01'' ''3'' ''5''], [aggregationRow ''2024-01-01'' ''2'' ''1'']]
     = [(''2024-01-01'', \<lparr>visits = Num 5, pageviews = Num 6\<rparr>)]"
  by (simp add: merge_def accumulate_def objectPrototypeMembers_def addTo_def aggregationRow_def parseInt_examples roundDouble_exact)

subsection \<open>Non-negative totals\<close>

lemma nonNegative_Num: "nonNegative x \<Longrightarrow> x = Num (amount x) \<and> 0 \<le> amount x"
  by (cases x) simp_all

lemma sum_filter_le:
  fixes f :: "'a \<Rightarrow> int"
  assumes "list_all (\<lambda>x. 0 \<le> f x) xs"
  shows "sum_list (map f (filter P xs)) \<le> sum_list (map f xs)"
  using assms by (induction xs) auto

lemma total_nonNegative:
  assumes "list_all nonNegative ns" and "sum_list (map amount ns) \<le> 2 ^ 53"
  shows "nonNegative (total ns)"
proof -
  have num: "map Num (map amount ns) = ns"
    using assms(1) by (induction ns) (auto dest: nonNegative_Num)
  have abs: "map abs (map amount ns) = map amount ns"
    using assms(1) by (induction ns) (auto dest: nonNegative_Num)
  have "sum_list (map abs (map amount ns)) \<le> 9007199254740992"
    using assms(2) unfolding abs by simp
  then have "total (map Num (map amount ns)) = Num (sum_list (map amount ns))"
    by (rule total_exact)
  then have "total ns = Num (sum_list (map amount ns))"
    by (simp only: num)
  moreover have "0 \<le> sum_list (map amount ns)"
    using assms(1) by (intro sum_list_nonneg) (auto simp: list_all_iff dest: nonNegative_Num)
  ultimately show ?thesis by simp
qed

lemma merge_nonNegative:
  assumes rows: "list_all (\<lambda>r. nonNegative (parseInt (aggregation.visits r))
                      \<and> nonNegative (parseInt (aggregation.pageviews r))) (concat results)"
    and v: "sumVisits (concat results) \<le> 2 ^ 53"
    and p: "sumPageviews (concat results) \<le> 2 ^ 53"
  shows "list_all (\<lambda>en. nonNegative (visits (snd en)) \<and> nonNegative (pageviews (snd en))) (merge results)"
  unfolding list_all_iff
proof
  fix en assume en: "en \<in> set (merge results)"
  let ?k = "fst en"
  let ?rows = "rowsOf ?k results"
  have "?k \<in> fst ` set (merge results)"
    using en by simp
  then have k: "?k \<notin> set objectPrototypeMembers"
    by (simp add: keys_merge)
  have "map_of (merge results) ?k = Some (snd en)"
    using en distinct_merge [of results] by simp
  then have entry: "snd en = foldl addRow \<lparr>visits = Num 0, pageviews = Num 0\<rparr> ?rows"
    unfolding map_of_merge [OF k] by (simp split: if_splits)
  have sub: "set ?rows \<subseteq> set (concat results)"
    by (auto simp: rowsOf_def)
  have vs: "list_all nonNegative (map (\<lambda>r. parseInt (aggregation.visits r)) ?rows)"
    and ps: "list_all nonNegative (map (\<lambda>r. parseInt (aggregation.pageviews r)) ?rows)"
    using rows sub by (auto simp: list_all_iff)
  have "sum_list (map (\<lambda>r. amount (parseInt (aggregation.visits r))) ?rows) \<le> sumVisits (concat results)"
    unfolding rowsOf_def sumVisits_def
    using rows by (intro sum_filter_le) (auto simp: list_all_iff dest: nonNegative_Num)
  with v have "sum_list (map amount (map (\<lambda>r. parseInt (aggregation.visits r)) ?rows)) \<le> 2 ^ 53"
    by (simp add: comp_def)
  with vs have tv: "nonNegative (total (map (\<lambda>r. parseInt (aggregation.visits r)) ?rows))"
    by (rule total_nonNegative)
  have "sum_list (map (\<lambda>r. amount (parseInt (aggregation.pageviews r))) ?rows) \<le> sumPageviews (concat results)"
    unfolding rowsOf_def sumPageviews_def
    using rows by (intro sum_filter_le) (auto simp: list_all_iff dest: nonNegative_Num)
  with p have "sum_list (map amount (map (\<lambda>r. parseInt (aggregation.pageviews r)) ?rows)) \<le> 2 ^ 53"
    by (simp add: comp_def)
  with ps have tp: "nonNegative (total (map (\<lambda>r. parseInt (aggregation.pageviews r)) ?rows))"
    by (rule total_nonNegative)
  from tv tp show "nonNegative (visits (snd en)) \<and> nonNegative (pageviews (snd en))"
    unfolding entry foldl_addRow_totals by simp
qed

lemma writeBack_nonNegative:
  assumes "list_all (\<lambda>b. nonNegative (visits b) \<and> nonNegative (pageviews b)) (historicalResponse w)"
    and "nonNegative (visits (snd en)) \<and> nonNegative (pageviews (snd en))"
  shows "list_all (\<lambda>b. nonNegative (visits b) \<and> nonNegative (pageviews b))
           (historicalResponse (writeBack c u w en))"
proof (cases "findIndex (\<lambda>historical. bucket.date historical = fst en) (historicalResponse w)")
  case None
  then show ?thesis using assms(1) by (simp add: writeBack_def)
next
  case (Some i)
  have "set ((historicalResponse w)[i := (historicalResponse w ! i)
            \<lparr>visits := visits (snd en), pageviews := pageviews (snd en)\<rparr>])
        \<subseteq> insert ((historicalResponse w ! i)\<lparr>visits := visits (snd en), pageviews := pageviews (snd en)\<rparr>)
            (set (historicalResponse w))"
    by (rule set_update_subset_insert)
  then show ?thesis
    using assms Some by (auto simp: writeBack_def list_all_iff)
qed

lemma foldl_writeBack_nonNegative:
  assumes "list_all (\<lambda>b. nonNegative (visits b) \<and> nonNegative (pageviews b)) (historicalResponse w)"
    and "list_all (\<lambda>en. nonNegative (visits (snd en)) \<and> nonNegative (pageviews (snd en))) es"
  shows "list_all (\<lambda>b. nonNegative (visits b) \<and> nonNegative (pageviews b))
           (historicalResponse (foldl (writeBack c u) w es))"
  using assms
proof (induction es arbitrary: w)
  case Nil
  then show ?case by simp
next
  case (Cons en es)
  from Cons.prems have "list_all (\<lambda>b. nonNegative (visits b) \<and> nonNegative (pageviews b))
      (historicalResponse (writeBack c u w en))"
    by (intro writeBack_nonNegative) simp_all
  with Cons show ?case by simp
qed

subsection \<open>A valid request with a resolved bucket\<close>

lemma endpoint_fetches:
  fixes e :: "'p env"
  assumes "validate z e req = Inr (df, d, dg)"
    and "profile (getBucketUrl e req ''sigleapp.id.blockstack'') = Some p"
    and "bucketUrl (getBucketUrl e req ''sigleapp.id.blockstack'') = Some url"
    and "url \<noteq> []"
  shows "fetches (analyticsHistoricalEndpoint z e req) =
           map (\<lambda>path. \<lparr>arg_dateFrom = df, arg_dateGrouping = dg, arg_path = path\<rparr>)
             (storiesPath ''sigleapp.id.blockstack'' (getPublicStories e url))"
    and "responses (analyticsHistoricalEndpoint z e req) =
           sent (writeBackAll (captureMessage e) ''sigleapp.id.blockstack''
                  (merge (map (aggregatePath e) (fetches (analyticsHistoricalEndpoint z e req))))
                  \<lparr>historicalResponse = scaffold z d (now e) [], sent = [], reported = []\<rparr>)
           @ [\<lparr>status = 200, body = Series (historicalResponse
                (writeBackAll (captureMessage e) ''sigleapp.id.blockstack''
                  (merge (map (aggregatePath e) (fetches (analyticsHistoricalEndpoint z e req))))
                  \<lparr>historicalResponse = scaffold z d (now e) [], sent = [], reported = []\<rparr>))\<rparr>]"
  by (simp_all add: endpoint_resolved [OF assms] Let_def del: map_map)

lemma endpoint_unresolved:
  fixes e :: "'p env"
  assumes "validate z e req = Inr (df, d, dg)"
    and "\<not> (\<exists>p url. profile (getBucketUrl e req ''sigleapp.id.blockstack'') = Some p
            \<and> bucketUrl (getBucketUrl e req ''sigleapp.id.blockstack'') = Some url \<and> url \<noteq> [])"
  shows "analyticsHistoricalEndpoint z e req = noBucket e ''sigleapp.id.blockstack''"
  using assms(2) unfolding endpoint_valid [OF assms(1)] aggregate_def Let_def
  by (auto split: option.splits)

lemma writeBackAll_length:
  "length (historicalResponse (writeBackAll c u dv w)) = length (historicalResponse w)"
  by (simp add: writeBackAll_def foldl_writeBack_length)

subsection \<open>The example requests, evaluated\<close>

lemma odd_merge:
  "merge (map oddProvider
       (map (\<lambda>path. \<lparr>arg_dateFrom = ''2024-01-01'', arg_dateGrouping = ''day'', arg_path = path\<rparr>)
          (storiesPath ''sigleapp.id.blockstack'' (twoStories url))))
     = [(''2024-01-02'', \<lparr>visits = Num (- 3), pageviews = NaN\<rparr>)]"
  by (simp add: storiesPath_def twoStories_def oddProvider_def merge_def accumulate_def objectPrototypeMembers_def addTo_def
      aggregationRow_def parseInt_examples roundDouble_exact)

lemma odd_writeBack:
  "writeBackAll (\<lambda>m. ''e1'') ''sigleapp.id.blockstack''
     [(''2024-01-02'', \<lparr>visits = Num (- 3), pageviews = NaN\<rparr>)]
     \<lparr>historicalResponse = scaffold utcZone jan1 jan3_10am [], sent = [], reported = []\<rparr>
   = \<lparr>historicalResponse =
        [\<lparr>visits = Num 0, pageviews = Num 0, date = ''2024-01-01''\<rparr>,
         \<lparr>visits = Num (- 3), pageviews = NaN, date = ''2024-01-02''\<rparr>,
         \<lparr>visits = Num 0, pageviews = Num 0, date = ''2024-01-03''\<rparr>],
      sent = [], reported = []\<rparr>"
  by (simp add: scaffold_jan writeBackAll_def objectEntries_def isArrayIndex_dates writeBack_def)

lemma merge_empty:
  assumes "list_all (\<lambda>rows. rows = []) results"
  shows "merge results = []"
proof -
  have "concat results = []" using assms by (induction results) simp_all
  then have "foldl accumulate [] (concat results) = []" by (simp only: foldl_Nil)
  then show ?thesis by (simp only: merge_concat)
qed

lemma writeBackAll_empty: "writeBackAll c u [] w = w"
  by (simp add: writeBackAll_def objectEntries_def)

lemma example_fetches:
  fixes e :: "unit env"
  assumes "getBucketUrl e = gaia" and "getPublicStories e = twoStories"
  shows "fetches (analyticsHistoricalEndpoint utcZone e dayQuery) =
     [\<lparr>arg_dateFrom = ''2024-01-01'', arg_dateGrouping = ''day'', arg_path = ''/sigleapp.id.blockstack/a''\<rparr>,
      \<lparr>arg_dateFrom = ''2024-01-01'', arg_dateGrouping = ''day'', arg_path = ''/sigleapp.id.blockstack/b''\<rparr>,
      \<lparr>arg_dateFrom = ''2024-01-01'', arg_dateGrouping = ''day'', arg_path = ''/sigleapp.id.blockstack''\<rparr>]"
  using endpoint_fetches(1) [OF validate_dayQuery, of e "()" "''https://gaia.example/hub/''"] assms
  by (simp add: gaia_def twoStories_def storiesPath_def)

lemma oneStory_rows:
  "concat (map (aggregatePath oneStoryEnv) (fetches (analyticsHistoricalEndpoint utcZone oneStoryEnv dayQuery)))
     = [aggregationRow ''2024-01-02'' ''4'' ''7'']"
  by (simp add: example_fetches oneStoryEnv_def oneStoryProvider_def)

lemma drift_merge:
  "merge (map driftProvider
       (map (\<lambda>path. \<lparr>arg_dateFrom = ''2024-01-01'', arg_dateGrouping = ''day'', arg_path = path\<rparr>)
          (storiesPath ''sigleapp.id.blockstack'' (twoStories url))))
     = [(''2024-01-02'', \<lparr>visits = Num 4, pageviews = Num 7\<rparr>),
        (''2023-12-31'', \<lparr>visits = Num 1, pageviews = Num 1\<rparr>)]"
  by (simp add: storiesPath_def twoStories_def driftProvider_def merge_def accumulate_def objectPrototypeMembers_def addTo_def
      aggregationRow_def parseInt_examples roundDouble_exact)

lemma drift_writeBack:
  "writeBackAll (\<lambda>m. ''e1'') ''sigleapp.id.blockstack''
     [(''2024-01-02'', \<lparr>visits = Num 4, pageviews = Num 7\<rparr>),
      (''2023-12-31'', \<lparr>visits = Num 1, pageviews = Num 1\<rparr>)]
     \<lparr>historicalResponse = scaffold utcZone jan1 jan3_10am [], sent = [], reported = []\<rparr>
   = \<lparr>historicalResponse =
        [\<lparr>visits = Num 0, pageviews = Num 0, date = ''2024-01-01''\<rparr>,
         \<lparr>visits = Num 4, pageviews = Num 7, date = ''2024-01-02''\<rparr>,
         \<lparr>visits = Num 0, pageviews = Num 0, date = ''2024-01-03''\<rparr>],
      sent = [\<lparr>status = 500, body = Error ''Internal server error: e1''\<rparr>],
      reported = [''No index for date 2023-12-31 and username sigleapp.id.blockstack'']\<rparr>"
  by (simp add: scaffold_jan writeBackAll_def objectEntries_def isArrayIndex_dates writeBack_def
      internalError_def)

text \<open>
  The example of the specification: two published stories, data for one of them only, on
  2024-01-02.
\<close>

lemma oneStory_merge:
  "merge (map oneStoryProvider
       (map (\<lambda>path. \<lparr>arg_dateFrom = ''2024-01-01'', arg_dateGrouping = ''day'', arg_path = path\<rparr>)
          (storiesPath ''sigleapp.id.blockstack'' (twoStories url))))
     = [(''2024-01-02'', \<lparr>visits = Num 4, pageviews = Num 7\<rparr>)]"
  by (simp add: storiesPath_def twoStories_def oneStoryProvider_def merge_def accumulate_def objectPrototypeMembers_def addTo_def
      aggregationRow_def parseInt_examples roundDouble_exact)

lemma oneStory_writeBack:
  "writeBackAll (\<lambda>m. ''e1'') ''sigleapp.id.blockstack''
     [(''2024-01-02'', \<lparr>visits = Num 4, pageviews = Num 7\<rparr>)]
     \<lparr>historicalResponse = scaffold utcZone jan1 jan3_10am [], sent = [], reported = []\<rparr>
   = \<lparr>historicalResponse =
        [\<lparr>visits = Num 0, pageviews = Num 0, date = ''2024-01-01''\<rparr>,
         \<lparr>visits = Num 4, pageviews = Num 7, date = ''2024-01-02''\<rparr>,
         \<lparr>visits = Num 0, pageviews = Num 0, date = ''2024-01-03''\<rparr>],
      sent = [], reported = []\<rparr>"
  by (simp add: scaffold_jan writeBackAll_def objectEntries_def isArrayIndex_dates writeBack_def)

lemma oneStory_series:
  "responses (analyticsHistoricalEndpoint utcZone oneStoryEnv dayQuery)
    = [\<lparr>status = 200, body = Series
         [\<lparr>visits = Num 0, pageviews = Num 0, date = ''2024-01-01''\<rparr>,
          \<lparr>visits = Num 4, pageviews = Num 7, date = ''2024-01-02''\<rparr>,
          \<lparr>visits = Num 0, pageviews = Num 0, date = ''2024-01-03''\<rparr>]\<rparr>]"
  by (simp add: analyticsHistoricalEndpoint_def validate_dayQuery oneStoryEnv_def aggregate_def gaia_def
      oneStory_merge oneStory_writeBack Let_def del: map_map)

subsection \<open>Status codes after the validation\<close>

lemma aggregate_statuses:
  fixes e :: "'p env"
  shows "list_all (\<lambda>r. status r = 500 \<or> status r = 200) (responses (aggregate e req u df dg hr))"
proof (cases "\<exists>p url. profile (getBucketUrl e req u) = Some p
            \<and> bucketUrl (getBucketUrl e req u) = Some url \<and> url \<noteq> []")
  case False
  then have "aggregate e req u df dg hr = noBucket e u"
    unfolding aggregate_def Let_def by (auto split: option.splits)
  then show ?thesis by (simp add: noBucket_def internalError_def)
next
  case True
  then obtain p url where res: "profile (getBucketUrl e req u) = Some p"
      "bucketUrl (getBucketUrl e req u) = Some url" "url \<noteq> []"
    by blast
  have "list_all (\<lambda>r. status r = 500) (sent (writeBackAll (captureMessage e) u dv
          \<lparr>historicalResponse = hr, sent = [], reported = []\<rparr>))" for dv
    by (rule writeBackAll_sent_500)
  then show ?thesis
    unfolding aggregate_resolved [OF res] Let_def by (auto simp: list_all_iff)
qed

subsection \<open>Dates without a bucket\<close>

lemma sent_writeBack_mono:
  "set (sent w) \<subseteq> set (sent (writeBack c u w en))"
  by (auto simp: writeBack_def split: option.splits)

lemma sent_foldl_writeBack_mono:
  "set (sent w) \<subseteq> set (sent (foldl (writeBack c u) w es))"
proof (induction es arbitrary: w)
  case Nil
  then show ?case by simp
next
  case (Cons en es)
  have "set (sent w) \<subseteq> set (sent (writeBack c u w en))"
    by (rule sent_writeBack_mono)
  also have "\<dots> \<subseteq> set (sent (foldl (writeBack c u) (writeBack c u w en) es))"
    by (rule Cons.IH)
  finally show ?case by simp
qed

lemma writeBack_unmatched:
  assumes "fst en \<notin> set (map bucket.date (historicalResponse w))"
  shows "internalError c (''No index for date '' @ fst en @ '' and username '' @ u)
           \<in> set (sent (writeBack c u w en))"
proof -
  have "list_all (\<lambda>historical. \<not> bucket.date historical = fst en) (historicalResponse w)"
    using assms by (force simp: list_all_iff)
  then have "findIndex (\<lambda>historical. bucket.date historical = fst en) (historicalResponse w) = None"
    by (simp add: findIndex_None)
  then show ?thesis by (simp add: writeBack_def)
qed

lemma foldl_writeBack_unmatched:
  assumes "en \<in> set es"
    and "fst en \<notin> set (map bucket.date (historicalResponse w))"
  shows "internalError c (''No index for date '' @ fst en @ '' and username '' @ u)
           \<in> set (sent (foldl (writeBack c u) w es))"
  using assms
proof (induction es arbitrary: w)
  case Nil
  then show ?case by simp
next
  case (Cons x es)
  show ?case
  proof (cases "en = x")
    case True
    have "internalError c (''No index for date '' @ fst en @ '' and username '' @ u)
           \<in> set (sent (writeBack c u w en))"
      using Cons.prems(2) by (rule writeBack_unmatched)
    with True have "internalError c (''No index for date '' @ fst en @ '' and username '' @ u)
           \<in> set (sent (writeBack c u w x))"
      by (simp only:)
    then show ?thesis
      using sent_foldl_writeBack_mono [of "writeBack c u w x" c u es] by auto
  next
    case False
    then have "en \<in> set es" using Cons.prems(1) by simp
    moreover have "fst en \<notin> set (map bucket.date (historicalResponse (writeBack c u w x)))"
      unfolding writeBack_dates by (rule Cons.prems(2))
    ultimately show ?thesis using Cons.IH by simp
  qed
qed

text \<open>
  Every accumulated date that has no bucket is answered by a 500 response with the
  identifier Sentry gave for it.
\<close>

lemma unmatched_date_reported:
  assumes "k \<in> fst ` set dv"
    and "k \<notin> set (map bucket.date (historicalResponse w))"
  shows "\<lparr>status = 500, body = Error (''Internal server error: '' @
            c (''No index for date '' @ k @ '' and username '' @ u))\<rparr>
           \<in> set (sent (writeBackAll c u dv w))"
proof -
  from assms(1) obtain en where en: "en \<in> set (objectEntries dv)" "fst en = k"
    by (auto simp: set_objectEntries)
  with assms(2) have "internalError c (''No index for date '' @ fst en @ '' and username '' @ u)
      \<in> set (sent (foldl (writeBack c u) w (objectEntries dv)))"
    by (intro foldl_writeBack_unmatched) simp_all
  then show ?thesis by (simp add: writeBackAll_def internalError_def en(2))
qed

subsection \<open>A host in Santiago de Chile\<close>





subsection \<open>A sum past the exact range\<close>

lemma rounding_above_safe: "roundDouble 9007199254740993 = Num 9007199254740992"
  by (simp add: roundDouble_def Let_def bitLength.simps)

section \<open>The claims\<close>

text \<open>
  Claim C1. When an accumulated date has no bucket with the same date string, the handler
  is to answer 500 with a correlation identifier and stop, sending neither a 200 response
  nor a partly merged series. On the request below the provider has a row for 2023-12-31,
  outside the requested range: the handler reports it to Sentry and sends the 500
  response with the identifier, but the \<^verbatim>\<open>return\<close> only leaves the callback of
  \<^verbatim>\<open>forEach\<close>; the loop goes on and the handler then calls
  \<^verbatim>\<open>res.status(200).json\<close> with the series in which 2024-01-02 has been merged.
\<close>

theorem unmatched_date_still_answers_200:
  "responses (analyticsHistoricalEndpoint utcZone driftEnv dayQuery)
    = [\<lparr>status = 500, body = Error ''Internal server error: e1''\<rparr>,
       \<lparr>status = 200, body = Series
         [\<lparr>visits = Num 0, pageviews = Num 0, date = ''2024-01-01''\<rparr>,
          \<lparr>visits = Num 4, pageviews = Num 7, date = ''2024-01-02''\<rparr>,
          \<lparr>visits = Num 0, pageviews = Num 0, date = ''2024-01-03''\<rparr>]\<rparr>]
   \<and> messages (analyticsHistoricalEndpoint utcZone driftEnv dayQuery)
    = [''No index for date 2023-12-31 and username sigleapp.id.blockstack'']"
  by (simp add: analyticsHistoricalEndpoint_def validate_dayQuery driftEnv_def aggregate_def gaia_def
      drift_merge drift_writeBack Let_def del: map_map)




text \<open>
  Claim C3, as stated: for every date in any per-path result the merge computes the sum of
  the visits and of the page views of its rows, read as integers. It fails in two ways. A
  row whose date names a member of \<^verbatim>\<open>Object.prototype\<close> gets no entry in
  \<^verbatim>\<open>datesValues\<close>, so nothing is summed for it. And the numbers are doubles: adding 1
  to 9007199254740992 gives 9007199254740992.
\<close>

theorem merge_skips_members_and_rounds:
  "merge [[aggregationRow ''constructor'' ''3'' ''5'']] = []
   \<and> merge [[aggregationRow ''2024-01-01'' ''9007199254740992'' ''0''],
            [aggregationRow ''2024-01-01'' ''1'' ''0'']]
       = [(''2024-01-01'', \<lparr>visits = Num 9007199254740992, pageviews = Num 0\<rparr>)]"
  by (simp add: merge_def accumulate_def objectPrototypeMembers_def addTo_def aggregationRow_def
      parseInt_def eval_defs roundDouble_exact rounding_above_safe)

text \<open>
  Claim C3, amended. After the merge, a date that names no member of
  \<^verbatim>\<open>Object.prototype\<close> has an entry in \<^verbatim>\<open>datesValues\<close> exactly when some per-path
  result has a row for it, each date has one entry, and the entry holds the sum, from
  zero and as JavaScript adds, of \<^verbatim>\<open>parseInt\<close> of the visits of all rows for that date
  over all per-path results, and likewise for the page views. For integers whose
  magnitudes add up to \<^verbatim>\<open>2^53\<close> at most, that sum is the integer sum. Two per-path
  results with (3, 5) and (2, 1) for 2024-01-01 merge to (5, 6).
\<close>

theorem merge_sums_by_date:
  assumes "k \<notin> set objectPrototypeMembers"
  shows "map_of (merge fathomAggregationResult) k =
     (if rowsOf k fathomAggregationResult = [] then None
      else Some \<lparr>visits = total (map (\<lambda>result. parseInt (aggregation.visits result))
                              (rowsOf k fathomAggregationResult)),
                 pageviews = total (map (\<lambda>result. parseInt (aggregation.pageviews result))
                              (rowsOf k fathomAggregationResult))\<rparr>)
   \<and> distinct (map fst (merge fathomAggregationResult))
   \<and> fst ` set (merge fathomAggregationResult)
       = aggregation.date ` set (concat fathomAggregationResult) - set objectPrototypeMembers
   \<and> (sum_list (map abs xs) \<le> 2 ^ 53 \<longrightarrow> total (map Num xs) = Num (sum_list xs))
   \<and> merge [[aggregationRow ''2024-01-01'' ''3'' ''5''], [aggregationRow ''2024-01-01'' ''2'' ''1'']]
       = [(''2024-01-01'', \<lparr>visits = Num 5, pageviews = Num 6\<rparr>)]"
proof -
  have "total (map Num xs) = Num (sum_list xs)" if "sum_list (map abs xs) \<le> 2 ^ 53"
    using that by (intro total_exact) simp
  then show ?thesis
    by (simp add: map_of_merge [OF assms] foldl_addRow_totals distinct_merge keys_merge merge_example)
qed

theorem merge_sums_by_date_witness:
  "''2024-01-01'' \<notin> set objectPrototypeMembers
   \<and> map_of (merge [[aggregationRow ''2024-01-01'' ''3'' ''5''], [aggregationRow ''2024-01-01'' ''2'' ''1'']])
        ''2024-01-01''
       = Some \<lparr>visits = total [Num 3, Num 2], pageviews = total [Num 5, Num 1]\<rparr>
   \<and> total (map Num [3, 2]) = Num 5
   \<and> total (map Num [5, 1]) = Num 6"
  using merge_sums_by_date [of "''2024-01-01''"
      "[[aggregationRow ''2024-01-01'' ''3'' ''5''], [aggregationRow ''2024-01-01'' ''2'' ''1'']]" "[3, 2]"]
    merge_sums_by_date [of "''2024-01-01''" "[]" "[5, 1]"]
  by (simp add: objectPrototypeMembers_def rowsOf_def aggregationRow_def parseInt_examples)

text \<open>
  Claim C4. The four checks of the query run in the order of the source, and the first
  that fails ends the request: a missing \<^verbatim>\<open>dateFrom\<close> (absent or empty, as
  \<^verbatim>\<open>!dateFrom\<close> tests) answers 400 with "dateFrom is required"; otherwise a
  \<^verbatim>\<open>dateFrom\<close> that does not parse answers 400 with "dateFrom is invalid"; otherwise
  a missing \<^verbatim>\<open>dateGrouping\<close> answers 400 with "dateGrouping is required"; otherwise a
  \<^verbatim>\<open>dateGrouping\<close> other than \<^verbatim>\<open>day\<close> and \<^verbatim>\<open>month\<close> answers 400 with
  "dateGrouping must be day or month". In each case that response is all the run does.
  A query that passes the four checks is never answered 400.
\<close>

theorem validation_in_order:
  fixes e :: "'p env"
  shows
    "(missing (dateFrom req) \<longrightarrow>
        analyticsHistoricalEndpoint z e req = badRequest ''dateFrom is required'')
     \<and> (dateFrom req = Some df \<and> df \<noteq> [] \<and> parse z df (referenceNow e) = None \<longrightarrow>
        analyticsHistoricalEndpoint z e req = badRequest ''dateFrom is invalid'')
     \<and> (dateFrom req = Some df \<and> df \<noteq> [] \<and> parse z df (referenceNow e) = Some d
          \<and> missing (dateGrouping req) \<longrightarrow>
        analyticsHistoricalEndpoint z e req = badRequest ''dateGrouping is required'')
     \<and> (dateFrom req = Some df \<and> df \<noteq> [] \<and> parse z df (referenceNow e) = Some d
          \<and> dateGrouping req = Some dg \<and> dg \<noteq> [] \<and> dg \<noteq> ''day'' \<and> dg \<noteq> ''month'' \<longrightarrow>
        analyticsHistoricalEndpoint z e req = badRequest ''dateGrouping must be day or month'')
     \<and> (dateFrom req = Some df \<and> df \<noteq> [] \<and> parse z df (referenceNow e) = Some d
          \<and> dateGrouping req = Some dg \<and> (dg = ''day'' \<or> dg = ''month'') \<longrightarrow>
        list_all (\<lambda>r. status r \<noteq> 400) (responses (analyticsHistoricalEndpoint z e req)))"
proof -
  have "list_all (\<lambda>r. status r \<noteq> 400) (responses (aggregate e req u df dg hr))" for u hr
    using aggregate_statuses [of e req u df dg hr] by (auto simp: list_all_iff)
  then show ?thesis
    by (auto simp: analyticsHistoricalEndpoint_def validate_cases reply_def badRequest_def missing_def)
qed

theorem validation_in_order_witness:
  "analyticsHistoricalEndpoint utcZone quietEnv \<lparr>dateFrom = None, dateGrouping = Some ''day''\<rparr>
     = badRequest ''dateFrom is required''
   \<and> analyticsHistoricalEndpoint utcZone quietEnv \<lparr>dateFrom = Some ''not-a-date'', dateGrouping = None\<rparr>
     = badRequest ''dateFrom is invalid''
   \<and> analyticsHistoricalEndpoint utcZone quietEnv \<lparr>dateFrom = Some ''2024-01-01'', dateGrouping = None\<rparr>
     = badRequest ''dateGrouping is required''
   \<and> analyticsHistoricalEndpoint utcZone quietEnv \<lparr>dateFrom = Some ''2024-01-01'', dateGrouping = Some ''week''\<rparr>
     = badRequest ''dateGrouping must be day or month''
   \<and> list_all (\<lambda>r. status r \<noteq> 400)
        (responses (analyticsHistoricalEndpoint utcZone quietEnv \<lparr>dateFrom = Some ''2024-01-01'', dateGrouping = Some ''day''\<rparr>))"
  using validation_in_order [where z = utcZone and e = quietEnv and req = "\<lparr>dateFrom = None, dateGrouping = Some ''day''\<rparr>"]
    validation_in_order [where z = utcZone and e = quietEnv and req = "\<lparr>dateFrom = Some ''not-a-date'', dateGrouping = None\<rparr>"
      and df = "''not-a-date''"]
    validation_in_order [where z = utcZone and e = quietEnv and req = "\<lparr>dateFrom = Some ''2024-01-01'', dateGrouping = None\<rparr>"
      and df = "''2024-01-01''" and d = jan1]
    validation_in_order [where z = utcZone and e = quietEnv
      and req = "\<lparr>dateFrom = Some ''2024-01-01'', dateGrouping = Some ''week''\<rparr>"
      and df = "''2024-01-01''" and d = jan1 and dg = "''week''"]
    validation_in_order [where z = utcZone and e = quietEnv
      and req = "\<lparr>dateFrom = Some ''2024-01-01'', dateGrouping = Some ''day''\<rparr>"
      and df = "''2024-01-01''" and d = jan1 and dg = "''day''"]
  by (simp add: missing_def parse_not_a_date parse_jan1)

text \<open>
  Claim C5, as stated: whatever strings the provider returns, the visits and page views
  of every bucket of a 200 response are non-negative integers. It fails: \<^verbatim>\<open>parseInt\<close>
  reads \<^verbatim>\<open>"-3"\<close> as \<open>-3\<close> and \<^verbatim>\<open>"n/a"\<close> as \<^verbatim>\<open>NaN\<close>, and both reach the
  200 response.
\<close>

theorem negative_and_NaN_in_success_response:
  "responses (analyticsHistoricalEndpoint utcZone oddEnv dayQuery)
    = [\<lparr>status = 200, body = Series
         [\<lparr>visits = Num 0, pageviews = Num 0, date = ''2024-01-01''\<rparr>,
          \<lparr>visits = Num (- 3), pageviews = NaN, date = ''2024-01-02''\<rparr>,
          \<lparr>visits = Num 0, pageviews = Num 0, date = ''2024-01-03''\<rparr>]\<rparr>]
   \<and> \<not> nonNegative (Num (- 3)) \<and> \<not> nonNegative NaN"
  by (simp add: analyticsHistoricalEndpoint_def validate_dayQuery oddEnv_def aggregate_def gaia_def
      odd_merge odd_writeBack Let_def del: map_map)

text \<open>
  Claim C5, amended: when every visits and pageviews string of the rows the provider
  returned for this request is read by \<^verbatim>\<open>parseInt\<close> as a non-negative integer, and
  these integers add up to \<^verbatim>\<open>2^53\<close> at most for the visits and for the page views, the
  visits and page views of every bucket of every 200 response are non-negative integers.
\<close>

theorem nonNegative_when_rows_are:
  fixes e :: "'p env"
  assumes "list_all (\<lambda>result. nonNegative (parseInt (aggregation.visits result))
                          \<and> nonNegative (parseInt (aggregation.pageviews result)))
             (concat (map (aggregatePath e) (fetches (analyticsHistoricalEndpoint z e req))))"
    and "sumVisits (concat (map (aggregatePath e) (fetches (analyticsHistoricalEndpoint z e req)))) \<le> 2 ^ 53"
    and "sumPageviews (concat (map (aggregatePath e) (fetches (analyticsHistoricalEndpoint z e req)))) \<le> 2 ^ 53"
  shows "list_all (\<lambda>r. status r = 200 \<longrightarrow>
            (\<exists>series. body r = Series series
               \<and> list_all (\<lambda>b. nonNegative (visits b) \<and> nonNegative (pageviews b)) series))
           (responses (analyticsHistoricalEndpoint z e req))"
proof (cases "validate z e req")
  case (Inl out)
  then show ?thesis using validate_Inl [OF Inl] by (auto simp: endpoint_invalid)
next
  case (Inr v)
  obtain df d dg where v: "validate z e req = Inr (df, d, dg)"
    using Inr by (cases v) auto
  let ?H = "analyticsHistoricalEndpoint z e req"
  show ?thesis
  proof (cases "\<exists>p url. profile (getBucketUrl e req ''sigleapp.id.blockstack'') = Some p
            \<and> bucketUrl (getBucketUrl e req ''sigleapp.id.blockstack'') = Some url \<and> url \<noteq> []")
    case False
    then show ?thesis
      by (simp add: endpoint_unresolved [OF v] noBucket_def internalError_def)
  next
    case True
    then obtain p url where res: "profile (getBucketUrl e req ''sigleapp.id.blockstack'') = Some p"
      "bucketUrl (getBucketUrl e req ''sigleapp.id.blockstack'') = Some url" "url \<noteq> []"
      by blast
    let ?start = "\<lparr>historicalResponse = scaffold z d (now e) [], sent = [], reported = []\<rparr>"
    let ?dv = "merge (map (aggregatePath e) (fetches ?H))"
    let ?w = "writeBackAll (captureMessage e) ''sigleapp.id.blockstack'' ?dv ?start"
    have r: "responses ?H = sent ?w @ [\<lparr>status = 200, body = Series (historicalResponse ?w)\<rparr>]"
      by (rule endpoint_fetches(2) [OF v res])
    have e500: "list_all (\<lambda>r. status r = 500) (sent ?w)"
      by (rule writeBackAll_sent_500)
    have "list_all (\<lambda>b. visits b = Num 0 \<and> pageviews b = Num 0) (scaffold z d (now e) [])"
      by (rule scaffold_zero)
    then have start: "list_all (\<lambda>b. nonNegative (visits b) \<and> nonNegative (pageviews b))
        (historicalResponse ?start)"
      by (simp add: list_all_iff)
    have "list_all (\<lambda>en. nonNegative (visits (snd en)) \<and> nonNegative (pageviews (snd en))) ?dv"
      using assms by (rule merge_nonNegative)
    then have "list_all (\<lambda>en. nonNegative (visits (snd en)) \<and> nonNegative (pageviews (snd en)))
        (objectEntries ?dv)"
      by (simp add: list_all_iff set_objectEntries)
    with start have "list_all (\<lambda>b. nonNegative (visits b) \<and> nonNegative (pageviews b))
        (historicalResponse ?w)"
      unfolding writeBackAll_def by (rule foldl_writeBack_nonNegative)
    with r e500 show ?thesis by (auto simp: list_all_iff)
  qed
qed

theorem nonNegative_when_rows_are_witness:
  "list_all (\<lambda>result. nonNegative (parseInt (aggregation.visits result))
                          \<and> nonNegative (parseInt (aggregation.pageviews result)))
     (concat (map (aggregatePath oneStoryEnv) (fetches (analyticsHistoricalEndpoint utcZone oneStoryEnv dayQuery))))
   \<and> sumVisits (concat (map (aggregatePath oneStoryEnv)
        (fetches (analyticsHistoricalEndpoint utcZone oneStoryEnv dayQuery)))) = 4
   \<and> sumPageviews (concat (map (aggregatePath oneStoryEnv)
        (fetches (analyticsHistoricalEndpoint utcZone oneStoryEnv dayQuery)))) = 7
   \<and> list_all (\<lambda>r. status r = 200 \<longrightarrow>
            (\<exists>series. body r = Series series
               \<and> list_all (\<lambda>b. nonNegative (visits b) \<and> nonNegative (pageviews b)) series))
        (responses (analyticsHistoricalEndpoint utcZone oneStoryEnv dayQuery))"
proof -
  let ?rows = "concat (map (aggregatePath oneStoryEnv)
      (fetches (analyticsHistoricalEndpoint utcZone oneStoryEnv dayQuery)))"
  have h: "list_all (\<lambda>result. nonNegative (parseInt (aggregation.visits result))
                          \<and> nonNegative (parseInt (aggregation.pageviews result))) ?rows"
    by (simp add: oneStory_rows aggregationRow_def parseInt_examples)
  have v: "sumVisits ?rows = 4" and p: "sumPageviews ?rows = 7"
    by (simp_all add: oneStory_rows aggregationRow_def parseInt_examples sumVisits_def sumPageviews_def)
  have "sumVisits ?rows \<le> 2 ^ 53" "sumPageviews ?rows \<le> 2 ^ 53"
    unfolding v p by simp_all
  from nonNegative_when_rows_are [OF h this] h v p show ?thesis
    by (intro conjI)
qed

text \<open>
  Claim C6. For a valid request whose bucket is resolved, a day of the scaffold whose date
  is in no row of any per-path result is, in the series of the 200 response, the bucket
  the scaffold made for it: 0 visits and 0 page views.
\<close>

theorem zero_where_provider_silent:
  fixes e :: "'p env"
  assumes "validate z e req = Inr (df, d, dg)"
    and "profile (getBucketUrl e req ''sigleapp.id.blockstack'') = Some p"
    and "bucketUrl (getBucketUrl e req ''sigleapp.id.blockstack'') = Some url"
    and "url \<noteq> []"
    and "i < length (scaffold z d (now e) [])"
    and "bucket.date (scaffold z d (now e) [] ! i)
           \<notin> aggregation.date ` set (concat (map (aggregatePath e) (fetches (analyticsHistoricalEndpoint z e req))))"
  shows "\<exists>errors series.
           responses (analyticsHistoricalEndpoint z e req) = errors @ [\<lparr>status = 200, body = Series series\<rparr>]
           \<and> list_all (\<lambda>r. status r = 500) errors
           \<and> length series = length (scaffold z d (now e) [])
           \<and> series ! i = scaffold z d (now e) [] ! i
           \<and> visits (series ! i) = Num 0 \<and> pageviews (series ! i) = Num 0"
proof -
  let ?H = "analyticsHistoricalEndpoint z e req"
  let ?start = "\<lparr>historicalResponse = scaffold z d (now e) [], sent = [], reported = []\<rparr>"
  let ?w = "writeBackAll (captureMessage e) ''sigleapp.id.blockstack''
              (merge (map (aggregatePath e) (fetches ?H))) ?start"
  have r: "responses ?H = sent ?w @ [\<lparr>status = 200, body = Series (historicalResponse ?w)\<rparr>]"
    by (rule endpoint_fetches(2) [OF assms(1-4)])
  have e500: "list_all (\<lambda>r. status r = 500) (sent ?w)"
    by (rule writeBackAll_sent_500)
  have len: "length (historicalResponse ?w) = length (scaffold z d (now e) [])"
    by (simp add: writeBackAll_length)
  have "bucket.date (historicalResponse ?start ! i)
          \<notin> fst ` set (merge (map (aggregatePath e) (fetches ?H)))"
    using assms(6) by (simp add: keys_merge)
  then have same: "historicalResponse ?w ! i = scaffold z d (now e) [] ! i"
    using writeBackAll_other [of ?start i "merge (map (aggregatePath e) (fetches ?H))"] by simp
  have "list_all (\<lambda>b. visits b = Num 0 \<and> pageviews b = Num 0) (scaffold z d (now e) [])"
    by (rule scaffold_zero)
  with assms(5) have zero: "visits (scaffold z d (now e) [] ! i) = Num 0
      \<and> pageviews (scaffold z d (now e) [] ! i) = Num 0"
    by (simp add: list_all_length)
  from r e500 len same zero show ?thesis by auto
qed

theorem zero_where_provider_silent_witness:
  "\<exists>errors series.
     responses (analyticsHistoricalEndpoint utcZone oneStoryEnv dayQuery)
       = errors @ [\<lparr>status = 200, body = Series series\<rparr>]
     \<and> list_all (\<lambda>r. status r = 500) errors
     \<and> length series = 3
     \<and> series ! 0 = \<lparr>visits = Num 0, pageviews = Num 0, date = ''2024-01-01''\<rparr>"
proof -
  have p: "profile (getBucketUrl oneStoryEnv dayQuery ''sigleapp.id.blockstack'') = Some ()"
    and u: "bucketUrl (getBucketUrl oneStoryEnv dayQuery ''sigleapp.id.blockstack'')
              = Some ''https://gaia.example/hub/''"
    and n: "''https://gaia.example/hub/'' \<noteq> []"
    by (simp_all add: oneStoryEnv_def gaia_def)
  have s: "scaffold utcZone jan1 (now oneStoryEnv) [] =
      [\<lparr>visits = Num 0, pageviews = Num 0, date = ''2024-01-01''\<rparr>,
       \<lparr>visits = Num 0, pageviews = Num 0, date = ''2024-01-02''\<rparr>,
       \<lparr>visits = Num 0, pageviews = Num 0, date = ''2024-01-03''\<rparr>]"
    by (simp add: oneStoryEnv_def scaffold_jan)
  have i: "0 < length (scaffold utcZone jan1 (now oneStoryEnv) [])"
    by (simp add: s)
  have d: "bucket.date (scaffold utcZone jan1 (now oneStoryEnv) [] ! 0)
      \<notin> aggregation.date ` set (concat (map (aggregatePath oneStoryEnv)
            (fetches (analyticsHistoricalEndpoint utcZone oneStoryEnv dayQuery))))"
    unfolding oneStory_rows by (simp add: s aggregationRow_def)
  from zero_where_provider_silent [OF validate_dayQuery p u n i d]
  show ?thesis by (auto simp: s eval_nat_numeral)
qed

text \<open>
  Claim C7. The write-back loop leaves the date of every bucket, the length of the series
  and the order of its elements as they were, and a bucket whose date is not a key of
  \<^verbatim>\<open>datesValues\<close> is not changed at all. So the series of the 200 response has the
  dates of the scaffold, in the scaffold's order.
\<close>

theorem writeBack_frame:
  fixes e :: "'p env"
  shows
    "map bucket.date (historicalResponse (writeBackAll capture username dv w))
       = map bucket.date (historicalResponse w)
     \<and> length (historicalResponse (writeBackAll capture username dv w)) = length (historicalResponse w)
     \<and> (\<forall>i. i < length (historicalResponse w)
              \<and> bucket.date (historicalResponse w ! i) \<notin> fst ` set dv \<longrightarrow>
            historicalResponse (writeBackAll capture username dv w) ! i = historicalResponse w ! i)
     \<and> (validate z e req = Inr (df, d, dg)
          \<and> profile (getBucketUrl e req ''sigleapp.id.blockstack'') = Some p
          \<and> bucketUrl (getBucketUrl e req ''sigleapp.id.blockstack'') = Some url
          \<and> url \<noteq> [] \<longrightarrow>
          (\<exists>errors series.
              responses (analyticsHistoricalEndpoint z e req) = errors @ [\<lparr>status = 200, body = Series series\<rparr>]
              \<and> map bucket.date series = map bucket.date (scaffold z d (now e) [])))"
proof (intro conjI allI impI)
  show "map bucket.date (historicalResponse (writeBackAll capture username dv w))
       = map bucket.date (historicalResponse w)"
    by (rule writeBackAll_dates)
  then show "length (historicalResponse (writeBackAll capture username dv w)) = length (historicalResponse w)"
    by (rule map_eq_imp_length_eq)
next
  fix i
  assume "i < length (historicalResponse w)
      \<and> bucket.date (historicalResponse w ! i) \<notin> fst ` set dv"
  then have "bucket.date (historicalResponse w ! i) \<notin> fst ` set dv" ..
  then show "historicalResponse (writeBackAll capture username dv w) ! i = historicalResponse w ! i"
    by (rule writeBackAll_other)
next
  assume a: "validate z e req = Inr (df, d, dg)
      \<and> profile (getBucketUrl e req ''sigleapp.id.blockstack'') = Some p
      \<and> bucketUrl (getBucketUrl e req ''sigleapp.id.blockstack'') = Some url
      \<and> url \<noteq> []"
  then have "analyticsHistoricalEndpoint z e req =
     (let calls = map (\<lambda>path. \<lparr>arg_dateFrom = df, arg_dateGrouping = dg, arg_path = path\<rparr>)
                    (storiesPath ''sigleapp.id.blockstack'' (getPublicStories e url));
          w = writeBackAll (captureMessage e) ''sigleapp.id.blockstack'' (merge (map (aggregatePath e) calls))
                \<lparr>historicalResponse = scaffold z d (now e) [], sent = [], reported = []\<rparr>
      in \<lparr>responses = sent w @ [\<lparr>status = 200, body = Series (historicalResponse w)\<rparr>],
          messages = reported w, lookups = [''sigleapp.id.blockstack''], fetches = calls\<rparr>)"
    by (intro endpoint_resolved) simp_all
  then show "\<exists>errors series.
      responses (analyticsHistoricalEndpoint z e req) = errors @ [\<lparr>status = 200, body = Series series\<rparr>]
      \<and> map bucket.date series = map bucket.date (scaffold z d (now e) [])"
    by (simp add: Let_def writeBackAll_dates)
qed

theorem writeBack_frame_witness:
  "historicalResponse (writeBackAll (\<lambda>m. ''e1'') ''sigleapp.id.blockstack''
       [(''2024-01-02'', \<lparr>visits = Num 4, pageviews = Num 7\<rparr>)]
       \<lparr>historicalResponse = scaffold utcZone jan1 jan3_10am [], sent = [], reported = []\<rparr>) ! 0
     = \<lparr>visits = Num 0, pageviews = Num 0, date = ''2024-01-01''\<rparr>
   \<and> (\<exists>errors series.
         responses (analyticsHistoricalEndpoint utcZone oneStoryEnv dayQuery)
           = errors @ [\<lparr>status = 200, body = Series series\<rparr>]
         \<and> map bucket.date series = [''2024-01-01'', ''2024-01-02'', ''2024-01-03''])"
  using writeBack_frame [of "\<lambda>m. ''e1''" "''sigleapp.id.blockstack''"
      "[(''2024-01-02'', \<lparr>visits = Num 4, pageviews = Num 7\<rparr>)]"
      "\<lparr>historicalResponse = scaffold utcZone jan1 jan3_10am [], sent = [], reported = []\<rparr>"
      utcZone oneStoryEnv dayQuery "''2024-01-01''" jan1 "''day''" "()" "''https://gaia.example/hub/''"]
    validate_dayQuery [of oneStoryEnv]
  by (simp add: scaffold_jan oneStoryEnv_def gaia_def)

text \<open>
  Claim C8. Whoever asks, the handler resolves the user name
  \<^verbatim>\<open>sigleapp.id.blockstack\<close> and no other. When the request is valid and the bucket
  is resolved, the paths it queries are \<^verbatim>\<open>/sigleapp.id.blockstack/<id>\<close> for each
  published story, in the order of the listing, followed by
  \<^verbatim>\<open>/sigleapp.id.blockstack\<close> as the last one: one more path than there are stories.
\<close>

theorem paths_of_fixed_user:
  fixes e :: "'p env"
  assumes "validate z e req = Inr (df, d, dg)"
    and "profile (getBucketUrl e req ''sigleapp.id.blockstack'') = Some p"
    and "bucketUrl (getBucketUrl e req ''sigleapp.id.blockstack'') = Some url"
    and "url \<noteq> []"
  shows "lookups (analyticsHistoricalEndpoint z e req) = [''sigleapp.id.blockstack'']
    \<and> map arg_path (fetches (analyticsHistoricalEndpoint z e req)) =
        map (\<lambda>publicStory. ''/sigleapp.id.blockstack/'' @ story_id publicStory) (getPublicStories e url)
        @ [''/sigleapp.id.blockstack'']
    \<and> length (fetches (analyticsHistoricalEndpoint z e req)) = length (getPublicStories e url) + 1
    \<and> arg_path (last (fetches (analyticsHistoricalEndpoint z e req))) = ''/sigleapp.id.blockstack''
    \<and> list_all (\<lambda>a. arg_dateFrom a = df \<and> arg_dateGrouping a = dg) (fetches (analyticsHistoricalEndpoint z e req))
    \<and> list_all (\<lambda>username. username = ''sigleapp.id.blockstack'')
          (lookups (analyticsHistoricalEndpoint z e anyRequest))"
proof -
  have "list_all (\<lambda>username. username = ''sigleapp.id.blockstack'')
          (lookups (analyticsHistoricalEndpoint z e anyRequest))"
  proof (cases "validate z e anyRequest")
    case (Inl out)
    then show ?thesis using validate_Inl [OF Inl] by (simp add: endpoint_invalid)
  next
    case (Inr v)
    then show ?thesis by (cases v) (simp add: endpoint_valid aggregate_lookups)
  qed
  then show ?thesis
    unfolding endpoint_valid [OF assms(1)] aggregate_resolved [OF assms(2,3,4)]
    by (simp add: Let_def storiesPath_def comp_def list_all_iff last_map)
qed

theorem paths_of_fixed_user_witness:
  "lookups (analyticsHistoricalEndpoint utcZone oneStoryEnv dayQuery) = [''sigleapp.id.blockstack'']
   \<and> map arg_path (fetches (analyticsHistoricalEndpoint utcZone oneStoryEnv dayQuery))
       = [''/sigleapp.id.blockstack/a'', ''/sigleapp.id.blockstack/b'', ''/sigleapp.id.blockstack'']
   \<and> length (fetches (analyticsHistoricalEndpoint utcZone oneStoryEnv dayQuery)) = 3"
  using paths_of_fixed_user [OF validate_dayQuery, of oneStoryEnv "()" "''https://gaia.example/hub/''"]
  by (simp add: oneStoryEnv_def gaia_def twoStories_def)

text \<open>
  Claim C9. On a host, the scaffolded series is a function of the \<^verbatim>\<open>dateFrom\<close> string
  and of \<^verbatim>\<open>now\<close>: two valid requests with the same \<^verbatim>\<open>dateFrom\<close>, read against the
  same \<^verbatim>\<open>now\<close>, give the same series, whatever else differs (the reference date given
  to \<^verbatim>\<open>parse\<close>, the grouping, the collaborators).
\<close>

theorem scaffold_depends_on_dateFrom_and_now:
  fixes e1 :: "'p env" and e2 :: "'q env"
  assumes "validate z e1 req1 = Inr (df, d1, dg1)"
    and "validate z e2 req2 = Inr (df, d2, dg2)"
    and "now e1 = now e2"
  shows "scaffold z d1 (now e1) [] = scaffold z d2 (now e2) []"
proof -
  have "parse z df (referenceNow e1) = Some d1" "parse z df (referenceNow e2) = Some d2"
    using validate_Inr [OF assms(1)] validate_Inr [OF assms(2)] by simp_all
  then have "d1 = d2"
    using parse_reference [of z df "referenceNow e1" "referenceNow e2"] by simp
  with assms(3) show ?thesis by simp
qed

theorem scaffold_depends_on_dateFrom_and_now_witness:
  "referenceNow oneStoryEnv \<noteq> referenceNow driftEnv
   \<and> scaffold utcZone jan1 (now oneStoryEnv) [] = scaffold utcZone jan1 (now driftEnv) []"
  using scaffold_depends_on_dateFrom_and_now
    [OF validate_dayQuery [of oneStoryEnv] validate_monthQuery [of driftEnv]]
  by (simp add: oneStoryEnv_def driftEnv_def jan3_9am_def jan3_10am_def)

text \<open>
  Claim C10. When \<^verbatim>\<open>dateFrom\<close> parses to a date that is not before \<^verbatim>\<open>now\<close>, the
  scaffolded series is empty; when moreover the request is valid, the bucket is resolved
  and every per-path result is empty, the handler answers 200 with the empty array and
  nothing else.
\<close>

theorem empty_range_empty_series:
  fixes e :: "'p env"
  assumes "parse z df (referenceNow e) = Some d"
    and "\<not> isBefore d (now e)"
  shows "scaffold z d (now e) [] = []
     \<and> (validate z e req = Inr (df, d, dg)
          \<and> profile (getBucketUrl e req ''sigleapp.id.blockstack'') = Some p
          \<and> bucketUrl (getBucketUrl e req ''sigleapp.id.blockstack'') = Some url
          \<and> url \<noteq> []
          \<and> list_all (\<lambda>a. aggregatePath e a = []) (fetches (analyticsHistoricalEndpoint z e req))
         \<longrightarrow> responses (analyticsHistoricalEndpoint z e req) = [\<lparr>status = 200, body = Series []\<rparr>])"
proof (intro conjI impI)
  show empty: "scaffold z d (now e) [] = []"
    using assms(2) by (rule scaffold_stop)
  assume a: "validate z e req = Inr (df, d, dg)
          \<and> profile (getBucketUrl e req ''sigleapp.id.blockstack'') = Some p
          \<and> bucketUrl (getBucketUrl e req ''sigleapp.id.blockstack'') = Some url
          \<and> url \<noteq> []
          \<and> list_all (\<lambda>a. aggregatePath e a = []) (fetches (analyticsHistoricalEndpoint z e req))"
  let ?H = "analyticsHistoricalEndpoint z e req"
  have "list_all (\<lambda>rows. rows = []) (map (aggregatePath e) (fetches ?H))"
    using a by (simp add: list_all_iff)
  then have m: "merge (map (aggregatePath e) (fetches ?H)) = []"
    by (rule merge_empty)
  have "responses ?H =
           sent (writeBackAll (captureMessage e) ''sigleapp.id.blockstack''
                  (merge (map (aggregatePath e) (fetches ?H)))
                  \<lparr>historicalResponse = scaffold z d (now e) [], sent = [], reported = []\<rparr>)
           @ [\<lparr>status = 200, body = Series (historicalResponse
                (writeBackAll (captureMessage e) ''sigleapp.id.blockstack''
                  (merge (map (aggregatePath e) (fetches ?H)))
                  \<lparr>historicalResponse = scaffold z d (now e) [], sent = [], reported = []\<rparr>))\<rparr>]"
    using a by (intro endpoint_fetches(2) [where p = p and url = url]) simp_all
  then show "responses ?H = [\<lparr>status = 200, body = Series []\<rparr>]"
    unfolding m writeBackAll_empty empty by simp
qed

theorem empty_range_empty_series_witness:
  "scaffold utcZone jan4 (now quietEnv) [] = []
   \<and> responses (analyticsHistoricalEndpoint utcZone quietEnv futureQuery) = [\<lparr>status = 200, body = Series []\<rparr>]"
proof -
  have f: "fetches (analyticsHistoricalEndpoint utcZone quietEnv futureQuery) =
     [\<lparr>arg_dateFrom = ''2024-01-04'', arg_dateGrouping = ''day'', arg_path = ''/sigleapp.id.blockstack''\<rparr>]"
    using endpoint_fetches(1) [OF validate_futureQuery, of quietEnv "()" "''https://gaia.example/hub/''"]
    by (simp add: quietEnv_def gaia_def storiesPath_def)
  have b: "\<not> isBefore jan4 (now quietEnv)"
    by (simp add: quietEnv_def isBefore_def earlier_def jan4_def jan3_10am_def)
  from empty_range_empty_series [of utcZone "''2024-01-04''" quietEnv jan4 futureQuery "''day''" "()"
      "''https://gaia.example/hub/''", OF parse_jan4 b]
  show ?thesis
    by (simp add: validate_futureQuery f) (simp add: quietEnv_def gaia_def)
qed

end
